theory Spec2Isabelle
  imports Complex_Main "HOL-Library.AList"
begin

section \<open>JavaScript values used by the server\<close>

text \<open>
  A JavaScript string is a sequence of UTF-16 code units; the channel names of the
  repository are Cyrillic, so a code unit is a natural number, not an 8-bit character.
  \<open>js\<close> turns an ASCII literal into such a string.
\<close>

type_synonym jsstring = "nat list"

definition js :: "string \<Rightarrow> jsstring" where
  "js s = map of_char s"

text \<open>
  A JavaScript number. Capacities are only copied and compared, never computed with, so
  the finite values are rationals (every finite double is one); the three special values
  are kept apart because \<open>Number(x) > 0\<close>, \<open>x || y\<close> and \<open>JSON.stringify\<close> treat
  them differently. The two zeros are one value here: both are falsy and not positive.
\<close>

datatype jsnumber = NaN | Finite rat | PosInfinity | NegInfinity

text \<open>\<open>n > 0\<close>\<close>

fun gt0 :: "jsnumber \<Rightarrow> bool" where
  "gt0 NaN = False"
| "gt0 (Finite q) = (0 < q)"
| "gt0 PosInfinity = True"
| "gt0 NegInfinity = False"

text \<open>Truthiness of a number: everything but \<open>0\<close> and \<open>NaN\<close>.\<close>

fun truthy :: "jsnumber \<Rightarrow> bool" where
  "truthy NaN = False"
| "truthy (Finite q) = (q \<noteq> 0)"
| "truthy PosInfinity = True"
| "truthy NegInfinity = True"

text \<open>\<open>Number.isFinite(n)\<close>\<close>

fun isFinite :: "jsnumber \<Rightarrow> bool" where
  "isFinite (Finite q) = True"
| "isFinite _ = False"

text \<open>\<open>size >= n\<close> for a collection size on the left.\<close>

fun size_ge :: "nat \<Rightarrow> jsnumber \<Rightarrow> bool" where
  "size_ge k NaN = False"
| "size_ge k (Finite q) = (q \<le> of_nat k)"
| "size_ge k PosInfinity = False"
| "size_ge k NegInfinity = True"

text \<open>\<open>x || ''\<close> for an optional string: \<open>undefined\<close>, \<open>null\<close> and \<open>''\<close> all give \<open>''\<close>.\<close>

definition or_empty :: "jsstring option \<Rightarrow> jsstring" where
  "or_empty x = (case x of None \<Rightarrow> [] | Some s \<Rightarrow> s)"

text \<open>
  \<open>String.prototype.trim\<close>: strips the WhiteSpace and LineTerminator code units of
  ECMAScript from both ends.
\<close>

definition is_space :: "nat \<Rightarrow> bool" where
  "is_space c \<longleftrightarrow>
     c \<in> {9, 10, 11, 12, 13, 32, 160, 5760, 8232, 8233, 8239, 8287, 12288, 65279}
     \<or> (8192 \<le> c \<and> c \<le> 8202)"

definition trim :: "jsstring \<Rightarrow> jsstring" where
  "trim s = rev (dropWhile is_space (rev (dropWhile is_space s)))"

text \<open>\<open>s.slice(a, b)\<close> for \<open>0 \<le> a \<le> b\<close>.\<close>

definition slice :: "nat \<Rightarrow> nat \<Rightarrow> jsstring \<Rightarrow> jsstring" where
  "slice a b s = take (b - a) (drop a s)"

text \<open>
  A value that \<open>JSON.parse\<close> returns. An object is the list of its own properties;
  \<open>v.k\<close> reads one of them with \<open>field\<close>, and is \<open>undefined\<close> (\<open>None\<close>) for a missing
  property and for every value that is not an object: the prototypes of numbers,
  strings, booleans and arrays have none of the properties that the store reads.
\<close>

datatype json =
    JNull
  | JBool bool
  | JNumber jsnumber
  | JString jsstring
  | JArray "json list"
  | JObject "(jsstring \<times> json) list"

fun field :: "json \<Rightarrow> jsstring \<Rightarrow> json option" where
  "field (JObject fs) k = map_of fs k"
| "field _ k = None"

fun truthy_json :: "json \<Rightarrow> bool" where
  "truthy_json JNull = False"
| "truthy_json (JBool b) = b"
| "truthy_json (JNumber n) = truthy n"
| "truthy_json (JString s) = (s \<noteq> [])"
| "truthy_json (JArray xs) = True"
| "truthy_json (JObject fs) = True"

text \<open>
  What a call sees of the world outside: the clock (\<open>new Date().toISOString()\<close>), the
  successive results of \<open>Math.random().toString(36)\<close>, whether \<open>mkdirSync\<close> and
  \<open>writeFileSync\<close> throw (a write that throws leaves the file as it was), and four
  functions of the JavaScript engine that the model does not fix: the case mappings
  \<open>String.prototype.toLowerCase\<close> and \<open>toUpperCase\<close>, which are tables of Unicode, the
  decimal text of a number (\<open>String(n)\<close>) and the number that a string denotes
  (\<open>Number(s)\<close>). Every theorem holds for all of them.
\<close>

record env =
  now :: jsstring
  random :: "nat \<Rightarrow> jsstring"
  mkdir_fails :: bool
  write_fails :: bool
  toLowerCase :: "jsstring \<Rightarrow> jsstring"
  toUpperCase :: "jsstring \<Rightarrow> jsstring"
  number_string :: "jsnumber \<Rightarrow> jsstring"
  string_number :: "jsstring \<Rightarrow> jsnumber"

text \<open>
  \<open>String(v)\<close> for a parsed value; \<open>None\<close> is the \<open>TypeError\<close> that the conversion
  throws for an object with an own property \<open>toString\<close> (which is not callable, and
  \<open>valueOf\<close> returns the object). An array is joined with commas, \<open>null\<close> elements
  giving the empty string.
\<close>

fun to_string :: "env \<Rightarrow> json \<Rightarrow> jsstring option"
  and join_items :: "env \<Rightarrow> json list \<Rightarrow> jsstring option" where
  "to_string e JNull = Some (js ''null'')"
| "to_string e (JBool b) = Some (if b then js ''true'' else js ''false'')"
| "to_string e (JNumber n) = Some (number_string e n)"
| "to_string e (JString s) = Some s"
| "to_string e (JArray xs) = join_items e xs"
| "to_string e (JObject fs) =
     (if map_of fs (js ''toString'') = None then Some (js ''[object Object]'') else None)"
| "join_items e [] = Some []"
| "join_items e (x # xs) =
     (case (if x = JNull then Some [] else to_string e x) of
        None \<Rightarrow> None
      | Some s \<Rightarrow>
          if xs = [] then Some s
          else (case join_items e xs of None \<Rightarrow> None | Some t \<Rightarrow> Some (s @ [44] @ t)))"

text \<open>
  \<open>Number(v)\<close> for a property that may be missing: \<open>undefined\<close> gives \<open>NaN\<close>, \<open>null\<close>
  gives \<open>0\<close>, an array or an object is turned into a string first.
\<close>

definition to_number :: "env \<Rightarrow> json option \<Rightarrow> jsnumber option" where
  "to_number e v =
     (case v of
        None \<Rightarrow> Some NaN
      | Some JNull \<Rightarrow> Some (Finite 0)
      | Some (JBool b) \<Rightarrow> Some (Finite (if b then 1 else 0))
      | Some (JNumber n) \<Rightarrow> Some n
      | Some (JString t) \<Rightarrow> Some (string_number e t)
      | Some x \<Rightarrow> map_option (string_number e) (to_string e x))"

text \<open>
  What \<open>JSON.stringify\<close> keeps of a parsed value: a number that is not finite is
  written as \<open>null\<close>.
\<close>

fun rewritten :: "json \<Rightarrow> json"
  and rewritten_items :: "json list \<Rightarrow> json list"
  and rewritten_fields :: "(jsstring \<times> json) list \<Rightarrow> (jsstring \<times> json) list" where
  "rewritten (JNumber n) = (if isFinite n then JNumber n else JNull)"
| "rewritten (JArray xs) = JArray (rewritten_items xs)"
| "rewritten (JObject fs) = JObject (rewritten_fields fs)"
| "rewritten JNull = JNull"
| "rewritten (JBool b) = JBool b"
| "rewritten (JString t) = JString t"
| "rewritten_items [] = []"
| "rewritten_items (x # xs) = rewritten x # rewritten_items xs"
| "rewritten_fields [] = []"
| "rewritten_fields (f # fs) = (fst f, rewritten (snd f)) # rewritten_fields fs"

section \<open>The channel store (channelsStore.js)\<close>

text \<open>The \<open>Channel\<close> typedef of the store; \<open>passwordHash\<close> is \<open>None\<close> when undefined.\<close>

record channel =
  id_ch :: jsstring
  name :: jsstring
  maxUsers :: jsnumber
  hasPassword :: bool
  passwordHash :: "jsstring option"
  createdAt :: json

text \<open>
  A JavaScript \<open>Map\<close> keeps its keys in insertion order: \<open>set\<close> on a present key
  replaces the value in place, on a new key appends. That is \<open>AList.update\<close> on an
  association list; \<open>get\<close> is \<open>map_of\<close>, \<open>delete\<close> is \<open>AList.delete\<close>.
\<close>

type_synonym ('k, 'v) jsmap = "('k \<times> 'v) list"

definition has :: "('k, 'v) jsmap \<Rightarrow> 'k \<Rightarrow> bool" where
  "has m k = (map_of m k \<noteq> None)"

definition values_of :: "('k, 'v) jsmap \<Rightarrow> 'v list" where
  "values_of m = map snd m"

text \<open>
  The keys of the registry. \<open>createChannel\<close>, \<open>getChannel\<close> and \<open>updateChannel\<close> use the
  id, a string; the loader uses \<open>ch.id\<close> as the file has it, which need not be a string.
  A \<open>Map\<close> tells a number from the string that denotes it, and an array or an object
  from every other one: such a key is known by the position \<open>i\<close> of its entry in the
  file.
\<close>

datatype key = KNull | KBool bool | KNumber jsnumber | KString jsstring | KObject nat

fun key_of :: "nat \<Rightarrow> json \<Rightarrow> key" where
  "key_of i JNull = KNull"
| "key_of i (JBool b) = KBool b"
| "key_of i (JNumber n) = KNumber n"
| "key_of i (JString t) = KString t"
| "key_of i (JArray xs) = KObject i"
| "key_of i (JObject fs) = KObject i"

subsection \<open>The backing store\<close>

text \<open>
  What \<open>channels.json\<close> holds: a text that \<open>readFileSync\<close> and \<open>JSON.parse\<close> turn into
  a value, or one on which they throw. The file is modelled at the level of JSON values,
  not of text: \<open>JSON.parse (JSON.stringify v)\<close> is what \<open>JSON.stringify\<close> keeps of \<open>v\<close>.
\<close>

datatype file_content = Unparsable | Parsed json

record fs =
  dir_exists :: bool
  channelsFile :: "file_content option"

datatype error = NAME_REQUIRED | FS_ERROR

record store =
  channels :: "(key, channel) jsmap"
  disk :: fs

definition ensureDataDir :: "env \<Rightarrow> fs \<Rightarrow> error + fs" where
  "ensureDataDir e d =
     (if \<not> dir_exists d
      then (if mkdir_fails e then Inl FS_ERROR else Inr (d\<lparr>dir_exists := True\<rparr>))
      else Inr d)"

text \<open>
  \<open>JSON.stringify\<close> of one channel: a capacity that is not finite is written as
  \<open>null\<close>, and \<open>passwordHash\<close> is left out when it is \<open>undefined\<close>.
\<close>

definition stringify :: "channel \<Rightarrow> json" where
  "stringify ch =
     JObject
       ([(js ''id'', JString (id_ch ch)),
         (js ''name'', JString (name ch)),
         (js ''maxUsers'', if isFinite (maxUsers ch) then JNumber (maxUsers ch) else JNull),
         (js ''hasPassword'', JBool (hasPassword ch))]
        @ (case passwordHash ch of None \<Rightarrow> [] | Some h \<Rightarrow> [(js ''passwordHash'', JString h)])
        @ [(js ''createdAt'', rewritten (createdAt ch))])"

definition getChannels :: "store \<Rightarrow> channel list" where
  "getChannels st = values_of (channels st)"

definition getChannel :: "store \<Rightarrow> jsstring \<Rightarrow> channel option" where
  "getChannel st i = map_of (channels st) (KString i)"

definition saveChannelsToDisk :: "env \<Rightarrow> store \<Rightarrow> (error + unit) \<times> store" where
  "saveChannelsToDisk e st =
     (case ensureDataDir e (disk st) of
        Inl err \<Rightarrow> (Inl err, st)
      | Inr d \<Rightarrow>
          (let arr = values_of (channels st) in
           if write_fails e then (Inl FS_ERROR, st\<lparr>disk := d\<rparr>)
           else (Inr (),
                 st\<lparr>disk := d\<lparr>channelsFile := Some (Parsed (JArray (map stringify arr)))\<rparr>\<rparr>)))"

text \<open>
  The seed channels. Their names are Russian words, given by their code units (U+041E
  U+0431 U+0449 U+0438 U+0439, and U+0418 U+0433 U+0440 U+044B).
\<close>

definition seed :: "env \<Rightarrow> jsstring \<Rightarrow> jsstring \<Rightarrow> channel" where
  "seed e i n =
     \<lparr>id_ch = i, name = n, maxUsers = Finite 10, hasPassword = False,
      passwordHash = None, createdAt = JString (now e)\<rparr>"

definition initial_absent :: "env \<Rightarrow> channel list" where
  "initial_absent e =
     [seed e (js ''dota 2'') [1054, 1073, 1097, 1080, 1081],
      seed e (js ''coop'') [1048, 1075, 1088, 1099],
      seed e (js ''squad'') [1048, 1075, 1088, 1099]]"

definition initial_broken :: "env \<Rightarrow> channel list" where
  "initial_broken e = [seed e (js ''general'') [1054, 1073, 1097, 1080, 1081]]"

text \<open>\<open>xs.forEach(ch => channels.set(ch.id, ch))\<close>\<close>

definition set_all :: "channel list \<Rightarrow> (key, channel) jsmap \<Rightarrow> (key, channel) jsmap" where
  "set_all xs m = fold (\<lambda>ch. AList.update (KString (id_ch ch)) ch) xs m"

text \<open>\<open>x ? String(x) : undefined\<close> for an optional string: the empty string is dropped.\<close>

definition nonempty :: "jsstring option \<Rightarrow> jsstring option" where
  "nonempty x = (case x of None \<Rightarrow> None | Some s \<Rightarrow> if s \<noteq> [] then Some s else None)"

text \<open>
  The object that the \<open>parsed.forEach\<close> callback builds from the entry \<open>ch\<close>, whose
  \<open>id\<close> and \<open>name\<close> are \<open>i\<close> and \<open>n\<close>; \<open>None\<close> when a conversion throws.
  \<open>Number(null)\<close> is \<open>0\<close>, so a capacity of \<open>null\<close>, \<open>0\<close> or \<open>NaN\<close> falls back to \<open>10\<close>;
  \<open>createdAt\<close> is taken as the file has it.
\<close>

definition from_stored :: "env \<Rightarrow> json \<Rightarrow> json \<Rightarrow> json \<Rightarrow> channel option" where
  "from_stored e ch i n =
     (case to_string e i of
        None \<Rightarrow> None
      | Some si \<Rightarrow>
     (case to_string e n of
        None \<Rightarrow> None
      | Some sn \<Rightarrow>
     (case to_number e (field ch (js ''maxUsers'')) of
        None \<Rightarrow> None
      | Some m \<Rightarrow>
     (case (case field ch (js ''passwordHash'') of
              None \<Rightarrow> Some None
            | Some h \<Rightarrow> if truthy_json h then map_option Some (to_string e h) else Some None) of
        None \<Rightarrow> None
      | Some secret \<Rightarrow>
          Some \<lparr>id_ch = si, name = sn,
                maxUsers = (if truthy m then m else Finite 10),
                hasPassword = (case field ch (js ''hasPassword'') of
                                 None \<Rightarrow> False | Some b \<Rightarrow> truthy_json b),
                passwordHash = secret,
                createdAt = (case field ch (js ''createdAt'') of
                               None \<Rightarrow> JString (now e)
                             | Some c \<Rightarrow> if truthy_json c then c else JString (now e))\<rparr>))))"

text \<open>
  The callback itself, for the entry at position \<open>k\<close>: an entry without a truthy \<open>id\<close>
  and \<open>name\<close> is skipped; the others are filed under \<open>ch.id\<close> as it is, while the
  channel gets \<open>String(ch.id)\<close>. \<open>None\<close> when a conversion throws.
\<close>

definition load_entry :: "env \<Rightarrow> nat \<Rightarrow> json \<Rightarrow> (key, channel) jsmap \<Rightarrow> (key, channel) jsmap option" where
  "load_entry e k ch m =
     (case (field ch (js ''id''), field ch (js ''name'')) of
        (Some i, Some n) \<Rightarrow>
          if truthy_json ch \<and> truthy_json i \<and> truthy_json n
          then (case from_stored e ch i n of
                  None \<Rightarrow> None
                | Some c \<Rightarrow> Some (AList.update (key_of k i) c m))
          else Some m
      | _ \<Rightarrow> Some m)"

text \<open>\<open>parsed.forEach\<close>, from position \<open>k\<close> on; it stops at the first entry that throws.\<close>

fun load_entries :: "env \<Rightarrow> nat \<Rightarrow> json list \<Rightarrow> (key, channel) jsmap \<Rightarrow> (key, channel) jsmap option" where
  "load_entries e k [] m = Some m"
| "load_entries e k (ch # rest) m =
     (case load_entry e k ch m of
        None \<Rightarrow> None
      | Some m1 \<Rightarrow> load_entries e (Suc k) rest m1)"

text \<open>
  The \<open>try\<close> block of \<open>loadChannelsFromDisk\<close>: \<open>None\<close> when it throws, because the
  file cannot be read or parsed or because a conversion fails. A value that is not an
  array is ignored.
\<close>

definition read_file :: "env \<Rightarrow> file_content \<Rightarrow> (key, channel) jsmap \<Rightarrow> (key, channel) jsmap option" where
  "read_file e content m =
     (case content of
        Unparsable \<Rightarrow> None
      | Parsed (JArray parsed) \<Rightarrow> load_entries e 0 parsed m
      | Parsed _ \<Rightarrow> Some m)"

text \<open>
  \<open>loadChannelsFromDisk\<close>. Without a file the \<open>Map\<close> is seeded with three channels and
  written. What the \<open>try\<close> block throws is caught: the \<open>Map\<close> is cleared, seeded with
  one channel and written.
\<close>

definition loadChannelsFromDisk :: "env \<Rightarrow> store \<Rightarrow> (error + unit) \<times> store" where
  "loadChannelsFromDisk e st =
     (case ensureDataDir e (disk st) of
        Inl err \<Rightarrow> (Inl err, st)
      | Inr d \<Rightarrow>
          (case channelsFile d of
             None \<Rightarrow>
               saveChannelsToDisk e
                 (st\<lparr>channels := set_all (initial_absent e) (channels st), disk := d\<rparr>)
           | Some content \<Rightarrow>
               (case read_file e content (channels st) of
                  Some m \<Rightarrow> (Inr (), st\<lparr>channels := m, disk := d\<rparr>)
                | None \<Rightarrow>
                    saveChannelsToDisk e
                      (st\<lparr>channels := set_all (initial_broken e) [], disk := d\<rparr>))))"

text \<open>The module starts with an empty \<open>Map\<close> and loads the file once.\<close>

definition boot :: "env \<Rightarrow> fs \<Rightarrow> (error + unit) \<times> store" where
  "boot e d = loadChannelsFromDisk e \<lparr>channels = [], disk = d\<rparr>"

subsection \<open>Creating a channel\<close>

text \<open>
  The character class \<open>[a-z0-9...]\<close> of the first pattern, with the Russian letters
  U+0430 to U+044F and U+0451. The pattern has the \<open>i\<close> flag and is not in Unicode mode:
  a code unit is in the class when its canonical form is that of a member, where the
  canonical form of \<open>c\<close> is its upper case if that is one code unit, and \<open>c\<close> itself
  otherwise or when the upper case would turn a code unit above 127 into ASCII.
\<close>

definition canonicalize :: "env \<Rightarrow> nat \<Rightarrow> nat" where
  "canonicalize e c =
     (case toUpperCase e [c] of
        [u] \<Rightarrow> if 128 \<le> c \<and> u < 128 then c else u
      | _ \<Rightarrow> c)"

definition slug_class :: "nat list" where
  "slug_class = [97..<123] @ [48..<58] @ [1072..<1104] @ [1105]"

definition slug_unit :: "env \<Rightarrow> nat \<Rightarrow> bool" where
  "slug_unit e c \<longleftrightarrow> canonicalize e c \<in> set (map (canonicalize e) slug_class)"

text \<open>\<open>s.replace(/[P]+/g, '-')\<close>: every maximal run of \<open>P\<close> becomes one hyphen.\<close>

function replace_runs :: "(nat \<Rightarrow> bool) \<Rightarrow> jsstring \<Rightarrow> jsstring" where
  "replace_runs P [] = []"
| "replace_runs P (c # cs) =
     (if P c then 45 # replace_runs P (dropWhile P cs) else c # replace_runs P cs)"
  by pat_completeness auto
termination
  by (relation "measure (\<lambda>(P, s). length s)") (auto simp: length_dropWhile_le less_Suc_eq_le)

text \<open>\<open>s.replace(/^-|-$/g, '')\<close>\<close>

definition strip_hyphens :: "jsstring \<Rightarrow> jsstring" where
  "strip_hyphens s =
     (let t = (case s of [] \<Rightarrow> [] | c # cs \<Rightarrow> if c = 45 then cs else s)
      in if t \<noteq> [] \<and> last t = 45 then butlast t else t)"

text \<open>
  \<open>slugify\<close>: lower case, every run outside the class to a hyphen, runs of hyphens to
  one, a hyphen at either end dropped. It draws a random number only when the slug is
  empty; it returns the id and the random source left for the caller.
\<close>

definition slugify :: "env \<Rightarrow> jsstring \<Rightarrow> jsstring \<times> (nat \<Rightarrow> jsstring)" where
  "slugify e n =
     (let s = strip_hyphens
                (replace_runs (\<lambda>c. c = 45)
                   (replace_runs (\<lambda>c. \<not> slug_unit e c) (toLowerCase e n)))
      in if s \<noteq> [] then (s, random e)
         else (js ''channel-'' @ slice 2 8 (random e 0), \<lambda>k. random e (Suc k)))"

text \<open>
  The loop \<open>while (channels.has(id)) id = `${id}-${random}`\<close>. Each round makes the id
  longer by at least the hyphen, and the registry is finite, so the loop ends whatever
  the random source gives.
\<close>

fun key_length :: "key \<Rightarrow> nat" where
  "key_length (KString t) = length t"
| "key_length _ = 0"

definition longest_key :: "(key, 'v) jsmap \<Rightarrow> nat" where
  "longest_key m = foldr (\<lambda>p n. max (key_length (fst p)) n) m 0"

lemma longest_key_ge: "(k, v) \<in> set m \<Longrightarrow> key_length k \<le> longest_key m"
  unfolding longest_key_def by (induction m) auto

lemma has_length_le: "has m (KString i) \<Longrightarrow> length i \<le> longest_key m"
  unfolding has_def by (auto dest!: map_of_SomeD longest_key_ge)

function free_id :: "(key, channel) jsmap \<Rightarrow> (nat \<Rightarrow> jsstring) \<Rightarrow> nat \<Rightarrow> jsstring \<Rightarrow> jsstring" where
  "free_id m rnd k i =
     (if has m (KString i) then free_id m rnd (Suc k) (i @ [45] @ slice 2 5 (rnd k)) else i)"
  by pat_completeness auto
termination
  by (relation "measure (\<lambda>(m, rnd, k, i). Suc (longest_key m) - length i)")
     (auto dest: has_length_le)

declare free_id.simps [simp del]

text \<open>The parameters of \<open>createChannel\<close> and the patch of \<open>updateChannel\<close>, as their
  doc comments type them; \<open>None\<close> is an absent, \<open>undefined\<close> or \<open>null\<close> field.\<close>

record params =
  p_name :: "jsstring option"
  p_maxUsers :: "jsnumber option"
  p_password :: "jsstring option"

text \<open>
  The channel object that \<open>createChannel\<close> builds for the trimmed name \<open>n\<close>.
  \<open>Number(undefined)\<close> is \<open>NaN\<close>, which is not positive.
\<close>

definition new_channel :: "env \<Rightarrow> params \<Rightarrow> jsstring \<Rightarrow> (key, channel) jsmap \<Rightarrow> channel" where
  "new_channel e p n m =
     (let (i0, rnd) = slugify e n;
          i = free_id m rnd 0 i0;
          requested = (case p_maxUsers p of None \<Rightarrow> NaN | Some v \<Rightarrow> v);
          capacity = (if gt0 requested then requested else Finite 10);
          password = nonempty (p_password p)
      in \<lparr>id_ch = i, name = n, maxUsers = capacity, hasPassword = (password \<noteq> None),
          passwordHash = password, createdAt = JString (now e)\<rparr>)"

text \<open>
  \<open>createChannel\<close> returns the channel or the error thrown, and the store as the call
  leaves it: the new channel is put into the \<open>Map\<close> before the file is written.
\<close>

definition createChannel :: "env \<Rightarrow> params \<Rightarrow> store \<Rightarrow> (error + channel) \<times> store" where
  "createChannel e p st =
     (let n = trim (or_empty (p_name p)) in
      if n = [] then (Inl NAME_REQUIRED, st)
      else
        (let channel = new_channel e p n (channels st);
             st1 = st\<lparr>channels := AList.update (KString (id_ch channel)) channel (channels st)\<rparr>
         in case saveChannelsToDisk e st1 of
              (Inl err, st2) \<Rightarrow> (Inl err, st2)
            | (Inr u, st2) \<Rightarrow> (Inr channel, st2)))"

text \<open>
  \<open>updateChannel\<close> changes the stored record in place; the outcome is \<open>None\<close> for
  an unknown id. A field of the patch that is \<open>undefined\<close> is left alone; for the
  password the patch distinguishes an absent field (\<open>None\<close>) from one that is present
  and empty or \<open>null\<close> (\<open>Some None\<close>).
\<close>

record patch =
  u_name :: "jsstring option"
  u_maxUsers :: "jsnumber option"
  u_password :: "jsstring option option"

text \<open>The three assignments of \<open>updateChannel\<close> to the existing record.\<close>

definition patched :: "patch \<Rightarrow> channel \<Rightarrow> channel" where
  "patched p existing =
     (let c1 = (case u_name p of
                  None \<Rightarrow> existing
                | Some s \<Rightarrow> if trim s \<noteq> [] then existing\<lparr>name := trim s\<rparr> else existing);
          c2 = (case u_maxUsers p of
                  None \<Rightarrow> c1
                | Some v \<Rightarrow> if isFinite v \<and> gt0 v then c1\<lparr>maxUsers := v\<rparr> else c1)
      in (case u_password p of
            None \<Rightarrow> c2
          | Some pw \<Rightarrow> c2\<lparr>hasPassword := (nonempty pw \<noteq> None), passwordHash := nonempty pw\<rparr>))"

definition updateChannel :: "env \<Rightarrow> jsstring \<Rightarrow> patch \<Rightarrow> store \<Rightarrow> (error + channel option) \<times> store" where
  "updateChannel e i p st =
     (case map_of (channels st) (KString i) of
        None \<Rightarrow> (Inr None, st)
      | Some existing \<Rightarrow>
          (let c = patched p existing;
               st1 = st\<lparr>channels := AList.update (KString i) c (channels st)\<rparr>
           in case saveChannelsToDisk e st1 of
                (Inl err, st2) \<Rightarrow> (Inl err, st2)
              | (Inr u, st2) \<Rightarrow> (Inr (Some c), st2)))"

section \<open>The configuration (config.js)\<close>

text \<open>
  The exports of the config module. \<open>getEnvNumber\<close> reads a variable of the process
  environment \<open>environ\<close>; \<open>Number(raw)\<close> on a string is the parameter \<open>num\<close>. An
  absent or empty variable and a value that is not finite give the default.
\<close>

record config =
  port :: jsnumber
  maxRoomUsers :: jsnumber
  allowedOrigins :: "jsstring list"

definition getEnvNumber ::
  "(jsstring \<Rightarrow> jsnumber) \<Rightarrow> (jsstring \<Rightarrow> jsstring option) \<Rightarrow> jsstring \<Rightarrow> jsnumber \<Rightarrow> jsnumber" where
  "getEnvNumber num environ n defaultValue =
     (case environ n of
        None \<Rightarrow> defaultValue
      | Some raw \<Rightarrow>
          if raw = [] then defaultValue
          else (let v = num raw in if isFinite v then v else defaultValue))"

text \<open>\<open>s.split(',')\<close>\<close>

fun split_comma :: "jsstring \<Rightarrow> jsstring list" where
  "split_comma [] = [[]]"
| "split_comma (c # cs) =
     (if c = 44 then [] # split_comma cs
      else (case split_comma cs of [] \<Rightarrow> [[c]] | x # xs \<Rightarrow> (c # x) # xs))"

definition load_config :: "(jsstring \<Rightarrow> jsnumber) \<Rightarrow> (jsstring \<Rightarrow> jsstring option) \<Rightarrow> config" where
  "load_config num environ =
     \<lparr>port = getEnvNumber num environ (js ''PORT'') (Finite 3000),
      maxRoomUsers = getEnvNumber num environ (js ''MAX_ROOM_USERS'') (Finite 10),
      allowedOrigins =
        filter (\<lambda>s. s \<noteq> [])
          (map trim (split_comma
             (if or_empty (environ (js ''ALLOWED_ORIGINS'')) \<noteq> []
              then or_empty (environ (js ''ALLOWED_ORIGINS'')) else js ''*'')))\<rparr>"

section \<open>The signalling server (server.js)\<close>

text \<open>A presence entry, and what of it is shown to clients.\<close>

record member =
  socketId :: jsstring
  name_m :: jsstring
  joinedAt :: jsstring

record user =
  socketId_u :: jsstring
  name_u :: jsstring

record channel_view =
  id_v :: jsstring
  name_v :: jsstring
  maxUsers_v :: jsnumber
  hasPassword_v :: bool
  onlineCount :: nat
  onlineUsers :: "user list"

datatype code = CHANNEL_NOT_FOUND | ROOM_FULL | WRONG_PASSWORD

datatype message =
    ChannelsState "channel_view list"
  | JoinError code
  | RoomUsers jsstring "user list" jsnumber
  | UserJoined jsstring jsstring
  | UserLeft jsstring

text \<open>
  What a handler does to the outside, in the order it does it: \<open>socket.join(room)\<close>,
  \<open>socket.emit\<close> (to the socket itself), \<open>socket.to(room).emit\<close> (to the room but
  the socket) and \<open>io.emit\<close> (to every client). The first argument of the first three
  is the id of the socket.
\<close>

datatype effect =
    SocketJoin jsstring jsstring
  | SocketEmit jsstring message
  | SocketTo jsstring jsstring message
  | IoEmit message

text \<open>
  The state of the process: the loaded configuration, the store module, and the two
  presence tables \<open>channelMembers\<close> and \<open>socketChannelMap\<close>.
\<close>

record server =
  config :: config
  registry :: store
  channelMembers :: "(jsstring, (jsstring, member) jsmap) jsmap"
  socketChannelMap :: "(jsstring, jsstring) jsmap"

definition public :: "member \<Rightarrow> user" where
  "public m = \<lparr>socketId_u = socketId m, name_u = name_m m\<rparr>"

definition buildChannelsState :: "server \<Rightarrow> channel_view list" where
  "buildChannelsState s =
     map (\<lambda>ch.
            let users = (case map_of (channelMembers s) (id_ch ch) of
                           Some members \<Rightarrow> map public (values_of members)
                         | None \<Rightarrow> [])
            in \<lparr>id_v = id_ch ch, name_v = name ch, maxUsers_v = maxUsers ch,
                hasPassword_v = hasPassword ch, onlineCount = length users,
                onlineUsers = users\<rparr>)
         (getChannels (registry s))"

definition broadcastChannelsState :: "server \<Rightarrow> effect list" where
  "broadcastChannelsState s = [IoEmit (ChannelsState (buildChannelsState s))]"

subsection \<open>POST /channels\<close>

datatype body = View channel_view | Error jsstring

text \<open>The handler answers with a status and a body; a missing request body gives
  parameters that are all absent.\<close>

definition post_channels :: "env \<Rightarrow> params \<Rightarrow> server \<Rightarrow> (nat \<times> body) \<times> effect list \<times> server" where
  "post_channels e b s =
     (case createChannel e b (registry s) of
        (Inr channel, r) \<Rightarrow>
          (let s1 = s\<lparr>registry := r\<rparr>;
               response = \<lparr>id_v = id_ch channel, name_v = name channel,
                           maxUsers_v = maxUsers channel, hasPassword_v = hasPassword channel,
                           onlineCount = 0, onlineUsers = []\<rparr>
           in ((201, View response), broadcastChannelsState s1, s1))
      | (Inl err, r) \<Rightarrow>
          (if err = NAME_REQUIRED
           then ((400, Error (js ''NAME_REQUIRED'')), [], s\<lparr>registry := r\<rparr>)
           else ((500, Error (js ''INTERNAL_ERROR'')), [], s\<lparr>registry := r\<rparr>)))"

subsection \<open>The socket handlers\<close>

record join_payload =
  roomId :: "jsstring option"
  userName :: "jsstring option"
  password :: "jsstring option"

text \<open>\<open>channel.maxUsers || config.maxRoomUsers\<close>\<close>

definition effectiveMaxUsers :: "config \<Rightarrow> channel \<Rightarrow> jsnumber" where
  "effectiveMaxUsers c ch = (if truthy (maxUsers ch) then maxUsers ch else maxRoomUsers c)"

text \<open>The placeholder name, U+0411 U+0435 U+0437, a space, U+0438 U+043C U+0435 U+043D U+0438.\<close>

definition no_name :: jsstring where
  "no_name = [1041, 1077, 1079, 32, 1080, 1084, 1077, 1085, 1080]"

text \<open>
  The \<open>join-room\<close> handler of the socket \<open>sid\<close>, in the four steps of the source.
  First the member \<open>Map\<close> of the channel is fetched, and created when there is none:
  this happens before the capacity check, so a rejected request can leave an empty
  \<open>Map\<close> behind.
\<close>

definition members_for :: "jsstring \<Rightarrow> server \<Rightarrow> (jsstring, member) jsmap \<times> server" where
  "members_for channelId s =
     (case map_of (channelMembers s) channelId of
        Some ms \<Rightarrow> (ms, s)
      | None \<Rightarrow> ([], s\<lparr>channelMembers := AList.update channelId [] (channelMembers s)\<rparr>))"

text \<open>The password check: \<open>!provided || provided !== (channel.passwordHash || '')\<close>.\<close>

definition wrong_password :: "channel \<Rightarrow> join_payload \<Rightarrow> bool" where
  "wrong_password channel p \<longleftrightarrow>
     hasPassword channel \<and>
     (let provided = or_empty (password p)
      in provided = [] \<or> provided \<noteq> or_empty (passwordHash channel))"

text \<open>The admission itself, from \<open>socket.join\<close> to the broadcast.\<close>

definition admit ::
  "env \<Rightarrow> jsstring \<Rightarrow> join_payload \<Rightarrow> jsstring \<Rightarrow> jsnumber \<Rightarrow> (jsstring, member) jsmap \<Rightarrow> server
     \<Rightarrow> effect list \<times> server" where
  "admit e sid p channelId effective members s =
     (let member = \<lparr>socketId = sid,
                     name_m = (if or_empty (userName p) \<noteq> [] then or_empty (userName p)
                               else no_name),
                     joinedAt = now e\<rparr>;
          members1 = AList.update sid member members;
          s1 = s\<lparr>channelMembers := AList.update channelId members1 (channelMembers s),
                   socketChannelMap := AList.update sid channelId (socketChannelMap s)\<rparr>;
          others = map public (filter (\<lambda>m. socketId m \<noteq> sid) (values_of members1))
      in ([SocketJoin sid channelId,
           SocketEmit sid (RoomUsers channelId others effective),
           SocketTo sid channelId (UserJoined sid (name_m member))]
          @ broadcastChannelsState s1, s1))"

definition join_room :: "env \<Rightarrow> jsstring \<Rightarrow> join_payload \<Rightarrow> server \<Rightarrow> effect list \<times> server" where
  "join_room e sid p s =
     (let channelId = trim (or_empty (roomId p)) in
      if channelId = [] then ([], s)
      else
        (case getChannel (registry s) channelId of
           None \<Rightarrow> ([SocketEmit sid (JoinError CHANNEL_NOT_FOUND)], s)
         | Some channel \<Rightarrow>
             (let (members, s1) = members_for channelId s;
                  effective = effectiveMaxUsers (config s) channel
              in if size_ge (length members) effective
                 then ([SocketEmit sid (JoinError ROOM_FULL)], s1)
                 else if wrong_password channel p
                 then ([SocketEmit sid (JoinError WRONG_PASSWORD)], s1)
                 else admit e sid p channelId effective members s1)))"

text \<open>The \<open>disconnect\<close> handler of the socket \<open>sid\<close>.\<close>

definition disconnect :: "jsstring \<Rightarrow> server \<Rightarrow> effect list \<times> server" where
  "disconnect sid s =
     (let channelId = or_empty (map_of (socketChannelMap s) sid) in
      if channelId = [] then ([], s)
      else
        (let (left, cm) =
               (case map_of (channelMembers s) channelId of
                  None \<Rightarrow> ([], channelMembers s)
                | Some members \<Rightarrow>
                    if has members sid
                    then (let members1 = AList.delete sid members
                          in ([SocketTo sid channelId (UserLeft sid)],
                              if length members1 = 0
                              then AList.delete channelId (channelMembers s)
                              else AList.update channelId members1 (channelMembers s)))
                    else ([], channelMembers s));
             s1 = s\<lparr>channelMembers := cm,
                      socketChannelMap := AList.delete sid (socketChannelMap s)\<rparr>
         in (left @ broadcastChannelsState s1, s1)))"

section \<open>Notions used in the properties\<close>

text \<open>The number of entries in the member \<open>Map\<close> of a channel; none when there is no \<open>Map\<close>.\<close>

definition occupancy :: "server \<Rightarrow> jsstring \<Rightarrow> nat" where
  "occupancy s c = (case map_of (channelMembers s) c of Some ms \<Rightarrow> length ms | None \<Rightarrow> 0)"

subsection \<open>Sample data\<close>

text \<open>
  An environment in which nothing fails, with the case mappings of the Latin and the
  Russian letters and the conversions between a number below ten and its digit (the
  sample names and numbers need no more); a channel of capacity one with a password, a
  member without a name, a server whose registry holds one channel, a join request for
  the channel \<open>a\<close> (with blanks around the id, which the handler trims) and one for a
  channel \<open>z\<close> that does not exist.
\<close>

definition plain_lower :: "jsstring \<Rightarrow> jsstring" where
  "plain_lower s =
     map (\<lambda>c. if (65 \<le> c \<and> c \<le> 90) \<or> (1040 \<le> c \<and> c \<le> 1071) then c + 32
               else if c = 1025 then 1105 else c) s"

definition plain_upper :: "jsstring \<Rightarrow> jsstring" where
  "plain_upper s =
     map (\<lambda>c. if (97 \<le> c \<and> c \<le> 122) \<or> (1072 \<le> c \<and> c \<le> 1103) then c - 32
               else if c = 1105 then 1025 else c) s"

definition digit :: "jsstring \<Rightarrow> jsnumber" where
  "digit raw = (case raw of [c] \<Rightarrow> if 48 \<le> c \<and> c \<le> 57 then Finite (of_nat (c - 48)) else NaN
                | _ \<Rightarrow> NaN)"

definition digit_string :: "jsnumber \<Rightarrow> jsstring" where
  "digit_string n = (case find (\<lambda>k. n = Finite (of_nat k)) [0, 1, 2, 3, 4, 5, 6, 7, 8, 9] of
                       Some k \<Rightarrow> [48 + k] | None \<Rightarrow> js ''NaN'')"

definition quiet :: env where
  "quiet = \<lparr>now = js ''t'', random = (\<lambda>k. js ''0.abc''), mkdir_fails = False, write_fails = False,
             toLowerCase = plain_lower, toUpperCase = plain_upper,
             number_string = digit_string, string_number = digit\<rparr>"

definition locked :: channel where
  "locked = \<lparr>id_ch = js ''a'', name = js ''A'', maxUsers = Finite 1, hasPassword = True,
              passwordHash = Some (js ''pw''), createdAt = JString (js ''t'')\<rparr>"

definition guest :: "jsstring \<Rightarrow> member" where
  "guest i = \<lparr>socketId = i, name_m = no_name, joinedAt = js ''t''\<rparr>"

definition lobby :: "channel \<Rightarrow> (jsstring, (jsstring, member) jsmap) jsmap \<Rightarrow> server" where
  "lobby ch cm =
     \<lparr>config = \<lparr>port = Finite 3000, maxRoomUsers = Finite 10, allowedOrigins = [js ''*'']\<rparr>,
      registry = \<lparr>channels = [(KString (id_ch ch), ch)],
                  disk = \<lparr>dir_exists = True, channelsFile = None\<rparr>\<rparr>,
      channelMembers = cm, socketChannelMap = []\<rparr>"

definition knock :: "jsstring option \<Rightarrow> join_payload" where
  "knock pw = \<lparr>roomId = Some (js '' a ''), userName = None, password = pw\<rparr>"

definition elsewhere :: "jsstring option \<Rightarrow> join_payload" where
  "elsewhere pw = \<lparr>roomId = Some (js ''z''), userName = None, password = pw\<rparr>"

text \<open>
  An environment in which the write fails, a request to create a channel, and a server
  started with \<open>MAX_ROOM_USERS=5\<close> in its environment.
\<close>

definition full_disk :: env where
  "full_disk = quiet\<lparr>write_fails := True\<rparr>"

definition ask :: "string \<Rightarrow> jsnumber option \<Rightarrow> params" where
  "ask n c = \<lparr>p_name = Some (js n), p_maxUsers = c, p_password = None\<rparr>"

definition five :: "jsstring \<Rightarrow> jsstring option" where
  "five n = (if n = js ''MAX_ROOM_USERS'' then Some (js ''5'') else None)"

definition thrifty :: server where
  "thrifty = (lobby locked [])\<lparr>config := load_config digit five\<rparr>"

text \<open>
  The registry is a \<open>Map\<close> from ids: its keys are distinct, and every channel is filed
  under its own id.
\<close>

definition keyed :: "(key, channel) jsmap \<Rightarrow> bool" where
  "keyed m \<longleftrightarrow> distinct (map fst m) \<and> (\<forall>(k, c) \<in> set m. k = KString (id_ch c))"

text \<open>
  The entries of a file have string ids: every \<open>id\<close> that the loader accepts, being
  truthy, is a string. The files that the store writes are of this kind.
\<close>

definition string_ids :: "json list \<Rightarrow> bool" where
  "string_ids xs \<longleftrightarrow>
     (\<forall>ch \<in> set xs. case field ch (js ''id'') of
                        None \<Rightarrow> True
                      | Some (JString t) \<Rightarrow> True
                      | Some i \<Rightarrow> \<not> truthy_json i)"

text \<open>The calls that change the registry, and a run of them.\<close>

datatype call = Create env params | Update env jsstring patch

fun step :: "call \<Rightarrow> store \<Rightarrow> store" where
  "step (Create e p) st = snd (createChannel e p st)"
| "step (Update e i p) st = snd (updateChannel e i p st)"

definition run :: "call list \<Rightarrow> store \<Rightarrow> store" where
  "run cs st = fold step cs st"

text \<open>The calls that are to add a channel: \<open>createChannel\<close> with a name.\<close>

fun adds :: "call \<Rightarrow> bool" where
  "adds (Create e p) = (trim (or_empty (p_name p)) \<noteq> [])"
| "adds (Update e i p) = False"

text \<open>
  A disk whose file was written by hand: \<open>[{"id": 5, "name": "five"}]\<close>, the id a number.
\<close>

definition by_hand :: fs where
  "by_hand =
     \<lparr>dir_exists = True,
      channelsFile = Some (Parsed (JArray
        [JObject [(js ''id'', JNumber (Finite 5)), (js ''name'', JString (js ''five''))]]))\<rparr>"

text \<open>A disk on which the data directory does not exist yet.\<close>

definition no_disk :: fs where
  "no_disk = \<lparr>dir_exists = False, channelsFile = None\<rparr>"

text \<open>
  What the round trip through the file is about: id, name, capacity, password flag and
  secret of a channel (not \<open>createdAt\<close>).
\<close>

definition essence :: "channel \<Rightarrow> jsstring \<times> jsstring \<times> jsnumber \<times> bool \<times> jsstring option" where
  "essence c = (id_ch c, name c, maxUsers c, hasPassword c, passwordHash c)"

text \<open>
  A registry whose channels the file can hold: ids and names are not empty, capacities
  are finite and not zero, and a secret that is there is not empty.
\<close>

definition storable :: "(key, channel) jsmap \<Rightarrow> bool" where
  "storable m \<longleftrightarrow>
     keyed m \<and>
     (\<forall>(k, c) \<in> set m. id_ch c \<noteq> [] \<and> name c \<noteq> [] \<and> isFinite (maxUsers c)
                         \<and> truthy (maxUsers c) \<and> passwordHash c \<noteq> Some [])"


text \<open>The members a channel has in the presence table, in the order of its \<open>Map\<close>.\<close>

definition present :: "server \<Rightarrow> jsstring \<Rightarrow> member list" where
  "present s c = (case map_of (channelMembers s) c of Some ms \<Rightarrow> values_of ms | None \<Rightarrow> [])"

text \<open>Every member of the presence table is filed under its own socket id.\<close>

definition filed :: "server \<Rightarrow> bool" where
  "filed s \<longleftrightarrow> (\<forall>(c, ms) \<in> set (channelMembers s). \<forall>(k, m) \<in> set ms. socketId m = k)"

text \<open>
  A channel without a password, and the server after the socket \<open>s1\<close> has joined it.
\<close>

definition hall :: channel where
  "hall = \<lparr>id_ch = js ''a'', name = js ''A'', maxUsers = Finite 10, hasPassword = False,
            passwordHash = None, createdAt = JString (js ''t'')\<rparr>"

definition once :: server where
  "once = snd (join_room quiet (js ''s1'') (knock None) (lobby hall []))"

text \<open>
  The server right after its start on an empty disk, a join request without a password,
  the socket ids filed under each channel, and the server after the socket \<open>s1\<close> has
  joined \<open>coop\<close> and then \<open>squad\<close>.
\<close>

definition fresh :: server where
  "fresh = \<lparr>config = \<lparr>port = Finite 3000, maxRoomUsers = Finite 10, allowedOrigins = [js ''*'']\<rparr>,
             registry = snd (boot quiet no_disk), channelMembers = [], socketChannelMap = []\<rparr>"

definition enter :: "string \<Rightarrow> join_payload" where
  "enter c = \<lparr>roomId = Some (js c), userName = None, password = None\<rparr>"

definition roster :: "server \<Rightarrow> (jsstring \<times> jsstring list) list" where
  "roster s = map (\<lambda>(c, ms). (c, map fst ms)) (channelMembers s)"

definition twice :: server where
  "twice = snd (join_room quiet (js ''s1'') (enter ''squad'')
             (snd (join_room quiet (js ''s1'') (enter ''coop'') fresh)))"

text \<open>
  The states the server can be in: it starts with the registry that the store loads and
  empty presence tables, and then handles requests to create a channel, join requests
  and disconnects, one at a time.
\<close>

inductive reachable :: "server \<Rightarrow> bool" where
  start: "reachable \<lparr>config = c, registry = snd (boot e d), channelMembers = [], socketChannelMap = []\<rparr>"
| create: "reachable s \<Longrightarrow> reachable (snd (snd (post_channels e b s)))"
| join: "reachable s \<Longrightarrow> reachable (snd (join_room e sid p s))"
| leave: "reachable s \<Longrightarrow> reachable (snd (disconnect sid s))"

text \<open>
  The channel, the join requests and the members of the first scenario of the
  specification: a channel \<open>General\<close> of capacity two.
\<close>

definition duo :: channel where
  "duo = \<lparr>id_ch = js ''general'', name = js ''General'', maxUsers = Finite 2, hasPassword = False,
           passwordHash = None, createdAt = JString (js ''t'')\<rparr>"

definition named :: "string \<Rightarrow> string \<Rightarrow> join_payload" where
  "named c n = \<lparr>roomId = Some (js c), userName = Some (js n), password = None\<rparr>"

definition person :: "string \<Rightarrow> string \<Rightarrow> member" where
  "person i n = \<lparr>socketId = js i, name_m = js n, joinedAt = js ''t''\<rparr>"

section \<open>Evaluating the sample data\<close>

lemmas sample_defs = quiet_def locked_def guest_def lobby_def knock_def js_def trim_def
  is_space_def or_empty_def getChannel_def occupancy_def effectiveMaxUsers_def Let_def

text \<open>
  With the case mapping of the samples, the class of the slug is the Latin letters, the
  digits and the Russian letters.
\<close>

lemma canonicalize_plain:
  assumes "toUpperCase e = plain_upper"
  shows "canonicalize e c =
     (if (97 \<le> c \<and> c \<le> 122) \<or> (1072 \<le> c \<and> c \<le> 1103) then c - 32
      else if c = 1105 then 1025 else c)"
  using assms by (auto simp: canonicalize_def plain_upper_def)

lemma set_slug_class:
  "set slug_class =
     {c. (97 \<le> c \<and> c \<le> 122) \<or> (48 \<le> c \<and> c \<le> 57) \<or> (1072 \<le> c \<and> c \<le> 1103) \<or> c = 1105}"
  unfolding slug_class_def set_append set_upt by auto

lemma canonical_class:
  assumes "toUpperCase e = plain_upper"
  shows "canonicalize e ` set slug_class =
     {c. (65 \<le> c \<and> c \<le> 90) \<or> (48 \<le> c \<and> c \<le> 57) \<or> (1040 \<le> c \<and> c \<le> 1071) \<or> c = 1025}"
proof (rule set_eqI, rule iffI)
  fix x :: nat
  assume "x \<in> canonicalize e ` set slug_class"
  then obtain a where "a \<in> set slug_class" "x = canonicalize e a"
    by blast
  then show "x \<in> {c. (65 \<le> c \<and> c \<le> 90) \<or> (48 \<le> c \<and> c \<le> 57) \<or> (1040 \<le> c \<and> c \<le> 1071) \<or> c = 1025}"
    unfolding set_slug_class canonicalize_plain [OF assms] by (auto split: if_splits)
next
  fix x :: nat
  assume x: "x \<in> {c. (65 \<le> c \<and> c \<le> 90) \<or> (48 \<le> c \<and> c \<le> 57) \<or> (1040 \<le> c \<and> c \<le> 1071) \<or> c = 1025}"
  define a where "a = (if (65 \<le> x \<and> x \<le> 90) \<or> (1040 \<le> x \<and> x \<le> 1071) then x + 32
                       else if x = 1025 then 1105 else x)"
  have "a \<in> set slug_class"
    using x unfolding set_slug_class a_def by auto
  moreover have "canonicalize e a = x"
    using x unfolding canonicalize_plain [OF assms] a_def by auto
  ultimately show "x \<in> canonicalize e ` set slug_class"
    by blast
qed

lemma slug_unit_plain:
  assumes "toUpperCase e = plain_upper"
  shows "slug_unit e c \<longleftrightarrow>
     (97 \<le> c \<and> c \<le> 122) \<or> (65 \<le> c \<and> c \<le> 90) \<or> (48 \<le> c \<and> c \<le> 57)
     \<or> (1072 \<le> c \<and> c \<le> 1103) \<or> (1040 \<le> c \<and> c \<le> 1071) \<or> c = 1105 \<or> c = 1025"
  unfolding slug_unit_def set_map canonical_class [OF assms]
  by (auto simp: canonicalize_plain [OF assms])

section \<open>Creating a channel without a name\<close>

text \<open>
  Claim C6. For every name that is absent, empty or made of white space only,
  \<open>createChannel\<close> throws \<open>NAME_REQUIRED\<close> and leaves the store, that is the \<open>Map\<close> in
  memory and the file on disk, exactly as it was.
\<close>

theorem createChannel_name_required:
  "trim (or_empty (p_name p)) = [] \<Longrightarrow> createChannel e p st = (Inl NAME_REQUIRED, st)"
  by (simp add: createChannel_def)

theorem createChannel_name_required_witness:
  "trim (or_empty (p_name \<lparr>p_name = Some (js ''  ''), p_maxUsers = None, p_password = None\<rparr>)) = []
   \<and> createChannel quiet \<lparr>p_name = Some (js ''  ''), p_maxUsers = None, p_password = None\<rparr>
         (registry (lobby locked []))
       = (Inl NAME_REQUIRED, registry (lobby locked []))"
proof -
  have h: "trim (or_empty (p_name \<lparr>p_name = Some (js ''  ''), p_maxUsers = None, p_password = None\<rparr>)) = []"
    by (simp add: sample_defs)
  show ?thesis
    using h createChannel_name_required [OF h, of quiet "registry (lobby locked [])"] by simp
qed

section \<open>The join-room handler\<close>

lemma length_members_for: "length (fst (members_for c s)) = occupancy s c"
  by (simp add: members_for_def occupancy_def split: option.splits)

lemma admit_effects:
  "fst (admit e sid p c eff ms s) =
     [SocketJoin sid c,
      SocketEmit sid (RoomUsers c (map public (filter (\<lambda>m. socketId m \<noteq> sid)
         (values_of (AList.update sid \<lparr>socketId = sid,
                     name_m = (if or_empty (userName p) \<noteq> [] then or_empty (userName p)
                               else no_name),
                     joinedAt = now e\<rparr> ms)))) eff),
      SocketTo sid c (UserJoined sid (if or_empty (userName p) \<noteq> [] then or_empty (userName p)
                               else no_name)),
      IoEmit (ChannelsState (buildChannelsState (snd (admit e sid p c eff ms s))))]"
  by (simp add: admit_def Let_def broadcastChannelsState_def)

lemma join_room_not_found:
  assumes "trim (or_empty (roomId p)) \<noteq> []"
    and "getChannel (registry s) (trim (or_empty (roomId p))) = None"
  shows "fst (join_room e sid p s) = [SocketEmit sid (JoinError CHANNEL_NOT_FOUND)]"
  using assms by (simp add: join_room_def Let_def)

lemma join_room_full:
  assumes "trim (or_empty (roomId p)) \<noteq> []"
    and "getChannel (registry s) (trim (or_empty (roomId p))) = Some ch"
    and "size_ge (occupancy s (trim (or_empty (roomId p)))) (effectiveMaxUsers (config s) ch)"
  shows "fst (join_room e sid p s) = [SocketEmit sid (JoinError ROOM_FULL)]"
  using assms length_members_for[of "trim (or_empty (roomId p))" s]
  by (simp add: join_room_def Let_def split_beta)

lemma join_room_wrong_password:
  assumes "SocketEmit t (JoinError WRONG_PASSWORD) \<in> set (fst (join_room e sid p s))"
  shows "\<exists>ch. getChannel (registry s) (trim (or_empty (roomId p))) = Some ch \<and> hasPassword ch
            \<and> \<not> size_ge (occupancy s (trim (or_empty (roomId p)))) (effectiveMaxUsers (config s) ch)"
proof (cases "getChannel (registry s) (trim (or_empty (roomId p)))")
  case None
  with assms show ?thesis
    by (simp add: join_room_def Let_def split: if_splits)
next
  case (Some ch)
  with assms show ?thesis
    using length_members_for[of "trim (or_empty (roomId p))" s]
    by (simp add: join_room_def Let_def split_beta admit_effects wrong_password_def split: if_splits)
qed

text \<open>
  Claim C1. The checks of a join request run in the order existence, capacity, password.
  A request for a channel that the registry does not have gets \<open>CHANNEL_NOT_FOUND\<close>.
  A request that names an existing channel whose occupancy has reached the effective
  capacity gets \<open>ROOM_FULL\<close> and nothing else, whatever password it carries; and
  \<open>WRONG_PASSWORD\<close> is emitted only when the channel exists, has a password and is not
  full. (A room id that trims to the empty string is dropped before any check.)
\<close>

theorem join_room_check_order:
  "(trim (or_empty (roomId p)) \<noteq> [] \<and>
    getChannel (registry s) (trim (or_empty (roomId p))) = None
      \<longrightarrow> fst (join_room e sid p s) = [SocketEmit sid (JoinError CHANNEL_NOT_FOUND)])
   \<and> (trim (or_empty (roomId p)) \<noteq> [] \<and>
    getChannel (registry s) (trim (or_empty (roomId p))) = Some ch \<and>
    size_ge (occupancy s (trim (or_empty (roomId p)))) (effectiveMaxUsers (config s) ch)
      \<longrightarrow> fst (join_room e sid p s) = [SocketEmit sid (JoinError ROOM_FULL)])
   \<and> (SocketEmit t (JoinError WRONG_PASSWORD) \<in> set (fst (join_room e sid p s))
      \<longrightarrow> (\<exists>c. getChannel (registry s) (trim (or_empty (roomId p))) = Some c \<and> hasPassword c
            \<and> \<not> size_ge (occupancy s (trim (or_empty (roomId p)))) (effectiveMaxUsers (config s) c)))"
  using join_room_full [of p s ch e sid] join_room_wrong_password [of t e sid p s]
    join_room_not_found [of p s e sid]
  by blast

theorem join_room_check_order_witness:
  "fst (join_room quiet (js ''s2'') (elsewhere None) (lobby locked []))
     = [SocketEmit (js ''s2'') (JoinError CHANNEL_NOT_FOUND)]
   \<and> fst (join_room quiet (js ''s2'') (knock None) (lobby locked [(js ''a'', [(js ''s1'', guest (js ''s1''))])]))
     = [SocketEmit (js ''s2'') (JoinError ROOM_FULL)]
   \<and> SocketEmit (js ''s2'') (JoinError WRONG_PASSWORD)
        \<in> set (fst (join_room quiet (js ''s2'') (knock (Some (js ''no''))) (lobby locked [])))
   \<and> (\<exists>c. getChannel (registry (lobby locked [])) (trim (or_empty (roomId (knock (Some (js ''no'')))))) = Some c
          \<and> hasPassword c
          \<and> \<not> size_ge (occupancy (lobby locked []) (trim (or_empty (roomId (knock (Some (js ''no'')))))))
                 (effectiveMaxUsers (config (lobby locked [])) c))"
proof -
  let ?full = "lobby locked [(js ''a'', [(js ''s1'', guest (js ''s1''))])]"
  have h1: "trim (or_empty (roomId (knock None))) \<noteq> [] \<and>
    getChannel (registry ?full) (trim (or_empty (roomId (knock None)))) = Some locked \<and>
    size_ge (occupancy ?full (trim (or_empty (roomId (knock None)))))
      (effectiveMaxUsers (config ?full) locked)"
    by (simp add: sample_defs)
  have h2: "SocketEmit (js ''s2'') (JoinError WRONG_PASSWORD)
        \<in> set (fst (join_room quiet (js ''s2'') (knock (Some (js ''no''))) (lobby locked [])))"
    by (simp add: sample_defs join_room_def members_for_def wrong_password_def)
  have h0: "trim (or_empty (roomId (elsewhere None))) \<noteq> [] \<and>
    getChannel (registry (lobby locked [])) (trim (or_empty (roomId (elsewhere None)))) = None"
    by (simp add: sample_defs elsewhere_def)
  show ?thesis
    using h0 h1 h2
      join_room_check_order [of "elsewhere None" "lobby locked []" quiet "js ''s2''" locked "js ''s2''"]
      join_room_check_order [of "knock None" ?full quiet "js ''s2''" locked "js ''s2''"]
      join_room_check_order [of "knock (Some (js ''no''))" "lobby locked []" quiet "js ''s2''" locked "js ''s2''"]
    by blast
qed

lemma buildChannelsState_members_for:
  "buildChannelsState (snd (members_for k s)) = buildChannelsState s"
  by (simp add: members_for_def buildChannelsState_def update_conv' values_of_def
           split: option.splits)

lemma members_for_frame:
  "registry (snd (members_for k s)) = registry s"
  "socketChannelMap (snd (members_for k s)) = socketChannelMap s"
  "config (snd (members_for k s)) = config s"
  by (simp_all add: members_for_def split: option.splits)

text \<open>
  Claim C10. A join request that is rejected, with whichever of the three codes, emits
  the error to the requester and nothing else, so no \<open>channels-state\<close> broadcast; and
  the snapshot computed from the state it leaves is the snapshot computed before, even
  when the request has put an empty member \<open>Map\<close> into the presence table. The registry
  and the reverse map are not touched either.
\<close>

theorem rejected_join_keeps_public_state:
  assumes "SocketEmit t (JoinError c) \<in> set (fst (join_room e sid p s))"
  shows "fst (join_room e sid p s) = [SocketEmit sid (JoinError c)]
       \<and> buildChannelsState (snd (join_room e sid p s)) = buildChannelsState s
       \<and> registry (snd (join_room e sid p s)) = registry s
       \<and> socketChannelMap (snd (join_room e sid p s)) = socketChannelMap s"
proof (cases "getChannel (registry s) (trim (or_empty (roomId p)))")
  case None
  with assms show ?thesis
    by (simp add: join_room_def Let_def split: if_splits)
next
  case (Some ch)
  with assms show ?thesis
    by (simp add: join_room_def Let_def split_beta admit_effects
          buildChannelsState_members_for members_for_frame split: if_splits)
qed

theorem rejected_join_keeps_public_state_witness:
  "SocketEmit (js ''s2'') (JoinError WRONG_PASSWORD)
     \<in> set (fst (join_room quiet (js ''s2'') (knock None) (lobby locked [])))
   \<and> channelMembers (lobby locked []) = []
   \<and> channelMembers (snd (join_room quiet (js ''s2'') (knock None) (lobby locked []))) = [(js ''a'', [])]
   \<and> fst (join_room quiet (js ''s2'') (knock None) (lobby locked []))
       = [SocketEmit (js ''s2'') (JoinError WRONG_PASSWORD)]
   \<and> buildChannelsState (snd (join_room quiet (js ''s2'') (knock None) (lobby locked [])))
       = buildChannelsState (lobby locked [])"
proof -
  have h: "SocketEmit (js ''s2'') (JoinError WRONG_PASSWORD)
     \<in> set (fst (join_room quiet (js ''s2'') (knock None) (lobby locked [])))"
    by (simp add: sample_defs join_room_def members_for_def wrong_password_def)
  have m: "channelMembers (snd (join_room quiet (js ''s2'') (knock None) (lobby locked []))) = [(js ''a'', [])]"
    by (simp add: sample_defs join_room_def members_for_def wrong_password_def)
  have n: "channelMembers (lobby locked []) = []"
    by (simp add: lobby_def)
  show ?thesis
    using h m n rejected_join_keeps_public_state [OF h] by simp
qed

section \<open>The snapshot\<close>

text \<open>
  Claim C9. An entry of the snapshot has the fields \<open>id\<close>, \<open>name\<close>, \<open>maxUsers\<close>,
  \<open>hasPassword\<close>, \<open>onlineCount\<close> and \<open>onlineUsers\<close>, the last with the socket id and the
  name of each member: the type \<open>channel_view\<close> has no place for the secret. And the
  snapshot does not depend on it: two states whose registries agree once the secrets are
  blanked, with the same presence table, have the same snapshot.
\<close>

theorem snapshot_hides_secret:
  assumes "map (\<lambda>c. c\<lparr>passwordHash := None\<rparr>) (getChannels (registry s))
         = map (\<lambda>c. c\<lparr>passwordHash := None\<rparr>) (getChannels (registry s'))"
    and "channelMembers s = channelMembers s'"
  shows "buildChannelsState s = buildChannelsState s'"
proof -
  define f where "f = (\<lambda>ch::channel. let users = (case map_of (channelMembers s) (id_ch ch) of
                           Some members \<Rightarrow> map public (values_of members)
                         | None \<Rightarrow> [])
            in \<lparr>id_v = id_ch ch, name_v = name ch, maxUsers_v = maxUsers ch,
                hasPassword_v = hasPassword ch, onlineCount = length users,
                onlineUsers = users\<rparr>)"
  have fe: "f (c\<lparr>passwordHash := None\<rparr>) = f c" for c
    by (simp add: f_def)
  have "map f xs = map f (map (\<lambda>c. c\<lparr>passwordHash := None\<rparr>) xs)" for xs
    by (simp add: fe)
  then have "map f (getChannels (registry s)) = map f (getChannels (registry s'))"
    using assms(1) by metis
  then show ?thesis
    unfolding buildChannelsState_def f_def using assms(2) by simp
qed

theorem snapshot_hides_secret_witness:
  "passwordHash locked \<noteq> passwordHash (locked\<lparr>passwordHash := Some (js ''other'')\<rparr>)
   \<and> buildChannelsState (lobby locked [(js ''a'', [(js ''s1'', guest (js ''s1''))])])
     = buildChannelsState (lobby (locked\<lparr>passwordHash := Some (js ''other'')\<rparr>)
        [(js ''a'', [(js ''s1'', guest (js ''s1''))])])"
proof -
  let ?cm = "[(js ''a'', [(js ''s1'', guest (js ''s1''))])]"
  have h1: "map (\<lambda>c. c\<lparr>passwordHash := None\<rparr>) (getChannels (registry (lobby locked ?cm)))
         = map (\<lambda>c. c\<lparr>passwordHash := None\<rparr>)
             (getChannels (registry (lobby (locked\<lparr>passwordHash := Some (js ''other'')\<rparr>) ?cm)))"
    by (simp add: lobby_def getChannels_def values_of_def locked_def)
  have h2: "channelMembers (lobby locked ?cm)
          = channelMembers (lobby (locked\<lparr>passwordHash := Some (js ''other'')\<rparr>) ?cm)"
    by (simp add: lobby_def)
  have d: "passwordHash locked \<noteq> passwordHash (locked\<lparr>passwordHash := Some (js ''other'')\<rparr>)"
    by (simp add: locked_def js_def)
  show ?thesis
    using d snapshot_hides_secret [OF h1 h2] by simp
qed

section \<open>Creating a channel\<close>

lemma free_id_fresh: "\<not> has m (KString (free_id m rnd k i))"
proof (induction m rnd k i rule: free_id.induct)
  case (1 m rnd k i)
  then show ?case
    by (subst free_id.simps) simp
qed

lemma id_new_channel: "\<not> has m (KString (id_ch (new_channel e p n m)))"
  by (simp add: new_channel_def Let_def split_beta free_id_fresh)

lemma update_absent: "map_of al k = None \<Longrightarrow> AList.update k v al = al @ [(k, v)]"
  by (induction al) (auto split: if_splits)

lemma save_channels [simp]: "channels (snd (saveChannelsToDisk e st)) = channels st"
  by (simp add: saveChannelsToDisk_def ensureDataDir_def Let_def split: sum.splits)

lemma save_fails:
  assumes "write_fails e \<or> (\<not> dir_exists (disk st) \<and> mkdir_fails e)"
  shows "fst (saveChannelsToDisk e st) = Inl FS_ERROR"
    and "channelsFile (disk (snd (saveChannelsToDisk e st))) = channelsFile (disk st)"
  using assms by (auto simp: saveChannelsToDisk_def ensureDataDir_def Let_def)

lemma save_succeeds:
  assumes "\<not> write_fails e" and "dir_exists (disk st) \<or> \<not> mkdir_fails e"
  shows "fst (saveChannelsToDisk e st) = Inr ()"
    and "disk (snd (saveChannelsToDisk e st))
         = \<lparr>dir_exists = True,
            channelsFile = Some (Parsed (JArray (map stringify (values_of (channels st)))))\<rparr>"
  using assms by (auto simp: saveChannelsToDisk_def ensureDataDir_def Let_def)

lemma createChannel_named:
  assumes "trim (or_empty (p_name p)) \<noteq> []"
  shows "createChannel e p st =
     (case fst (saveChannelsToDisk e (st\<lparr>channels := channels st @
                 [(KString (id_ch (new_channel e p (trim (or_empty (p_name p))) (channels st))),
                   new_channel e p (trim (or_empty (p_name p))) (channels st))]\<rparr>)) of
        Inl err \<Rightarrow> Inl err
      | Inr u \<Rightarrow> Inr (new_channel e p (trim (or_empty (p_name p))) (channels st)),
      snd (saveChannelsToDisk e (st\<lparr>channels := channels st @
                 [(KString (id_ch (new_channel e p (trim (or_empty (p_name p))) (channels st))),
                   new_channel e p (trim (or_empty (p_name p))) (channels st))]\<rparr>)))"
proof -
  have "map_of (channels st) (KString (id_ch (new_channel e p (trim (or_empty (p_name p))) (channels st)))) = None"
    using id_new_channel [of "channels st" e p "trim (or_empty (p_name p))"] by (simp add: has_def)
  then show ?thesis
    using assms by (simp add: createChannel_def Let_def update_absent split: prod.splits sum.splits)
qed

lemmas slug_defs = new_channel_def slugify_def plain_lower_def slug_unit_plain strip_hyphens_def
  slice_def nonempty_def has_def free_id.simps

lemma new_b: "new_channel quiet (ask ''b'' None) (js ''b'') [(KString (js ''a''), locked)]
  = \<lparr>id_ch = js ''b'', name = js ''b'', maxUsers = Finite 10, hasPassword = False,
      passwordHash = None, createdAt = JString (js ''t'')\<rparr>"
  by (simp add: sample_defs slug_defs ask_def)

text \<open>
  Claim C3, as the code has it. When the write fails while a channel is created, the
  failure reaches the caller: \<open>POST /channels\<close> answers 500 \<open>INTERNAL_ERROR\<close> and
  broadcasts nothing, and the file is left as it was. The \<open>Map\<close> in memory is not left
  as it was: \<open>createChannel\<close> puts the channel in before it writes and does not take
  it out again, so the registry ends with the new channel appended.
\<close>

theorem createChannel_write_failure:
  assumes "trim (or_empty (p_name p)) \<noteq> []"
      and "write_fails e \<or> (\<not> dir_exists (disk (registry s)) \<and> mkdir_fails e)"
  shows "fst (post_channels e p s) = (500, Error (js ''INTERNAL_ERROR''))
       \<and> fst (snd (post_channels e p s)) = []
       \<and> channelsFile (disk (registry (snd (snd (post_channels e p s)))))
           = channelsFile (disk (registry s))
       \<and> channels (registry (snd (snd (post_channels e p s))))
           = channels (registry s) @
               [(KString (id_ch (new_channel e p (trim (or_empty (p_name p))) (channels (registry s)))),
                 new_channel e p (trim (or_empty (p_name p))) (channels (registry s)))]"
  using assms
  by (simp add: post_channels_def createChannel_named save_fails split: prod.splits)

lemma new_b_full: "new_channel full_disk (ask ''b'' None) (js ''b'') [(KString (js ''a''), locked)]
  = \<lparr>id_ch = js ''b'', name = js ''b'', maxUsers = Finite 10, hasPassword = False,
      passwordHash = None, createdAt = JString (js ''t'')\<rparr>"
  by (simp add: sample_defs slug_defs ask_def full_disk_def)

lemma id_locked: "id_ch locked = js ''a''"
  by (simp add: locked_def)

lemma js_nonempty: "js (c # cs) \<noteq> []"
  by (simp add: js_def)

lemma trim_b: "trim (or_empty (p_name (ask ''b'' c))) = js ''b''"
  by (simp add: sample_defs ask_def)

theorem createChannel_write_failure_witness:
  "fst (post_channels full_disk (ask ''b'' None) (lobby locked []))
     = (500, Error (js ''INTERNAL_ERROR''))
   \<and> fst (snd (post_channels full_disk (ask ''b'' None) (lobby locked []))) = []
   \<and> channelsFile (disk (registry (snd (snd (post_channels full_disk (ask ''b'' None) (lobby locked []))))))
       = None
   \<and> map fst (channels (registry (snd (snd (post_channels full_disk (ask ''b'' None) (lobby locked []))))))
       = [KString (js ''a''), KString (js ''b'')]"
proof -
  have h1: "trim (or_empty (p_name (ask ''b'' None))) \<noteq> []"
    by (simp add: trim_b js_def)
  have h2: "write_fails full_disk \<or>
            (\<not> dir_exists (disk (registry (lobby locked []))) \<and> mkdir_fails full_disk)"
    by (simp add: full_disk_def quiet_def)
  have r: "channels (registry (lobby locked [])) = [(KString (js ''a''), locked)]"
          "channelsFile (disk (registry (lobby locked []))) = None"
    by (simp_all add: lobby_def locked_def)
  show ?thesis
    using createChannel_write_failure [OF h1 h2]
    by (simp add: r trim_b new_b_full)
qed

text \<open>
  The claim as stated fails: the write fails, \<open>createChannel\<close> throws, and the
  registry that held the channel \<open>a\<close> now holds \<open>a\<close> and \<open>b\<close>.
\<close>

theorem createChannel_write_failure_counterexample:
  "fst (createChannel full_disk (ask ''b'' None) (registry (lobby locked []))) = Inl FS_ERROR
   \<and> map id_ch (getChannels (registry (lobby locked []))) = [js ''a'']
   \<and> map id_ch (getChannels (snd (createChannel full_disk (ask ''b'' None) (registry (lobby locked [])))))
       = [js ''a'', js ''b'']"
proof -
  have r: "channels (registry (lobby locked [])) = [(KString (js ''a''), locked)]"
    by (simp add: lobby_def locked_def)
  have f: "fst (saveChannelsToDisk full_disk st) = Inl FS_ERROR" for st
    by (simp add: save_fails full_disk_def quiet_def)
  show ?thesis
    by (simp add: createChannel_named trim_b r new_b_full f getChannels_def values_of_def
          id_locked js_nonempty)
qed

lemma maxRoomUsers_finite: "isFinite (maxRoomUsers (load_config num environ))"
  by (simp add: load_config_def getEnvNumber_def Let_def split: option.splits)

lemma thrifty_five: "maxRoomUsers (config thrifty) = Finite 5"
  by (simp add: thrifty_def load_config_def getEnvNumber_def five_def digit_def js_def)

lemma post_channels_created:
  assumes "fst (createChannel e b (registry s)) = Inr ch"
  shows "fst (post_channels e b s)
       = (201, View \<lparr>id_v = id_ch ch, name_v = name ch, maxUsers_v = maxUsers ch,
                       hasPassword_v = hasPassword ch, onlineCount = 0, onlineUsers = []\<rparr>)"
  using assms by (cases "createChannel e b (registry s)") (simp add: post_channels_def Let_def)

text \<open>
  Claim C4, as the code has it. When the capacity argument is absent or not positive,
  the created channel has capacity 10, the constant written in \<open>createChannel\<close>; the
  store never reads the configuration, so this is 10 whatever \<open>maxRoomUsers\<close> is.
\<close>

theorem createChannel_default_capacity:
  assumes "case p_maxUsers p of None \<Rightarrow> True | Some v \<Rightarrow> \<not> gt0 v"
      and "fst (createChannel e p st) = Inr ch"
  shows "maxUsers ch = Finite 10"
proof -
  have n: "trim (or_empty (p_name p)) \<noteq> []"
    using assms(2) by (auto simp: createChannel_def)
  have "maxUsers (new_channel e p (trim (or_empty (p_name p))) (channels st)) = Finite 10"
    using assms(1) by (simp add: new_channel_def Let_def split_beta split: option.splits)
  then show ?thesis
    using assms(2) by (simp add: createChannel_named [OF n] split: sum.splits)
qed

theorem createChannel_default_capacity_witness:
  "fst (createChannel quiet (ask ''b'' (Some (Finite 0))) (registry thrifty))
     = Inr \<lparr>id_ch = js ''b'', name = js ''b'', maxUsers = Finite 10, hasPassword = False,
            passwordHash = None, createdAt = JString (js ''t'')\<rparr>
   \<and> maxRoomUsers (config thrifty) = Finite 5"
proof -
  have r: "channels (registry thrifty) = [(KString (js ''a''), locked)]"
          "disk (registry thrifty) = \<lparr>dir_exists = True, channelsFile = None\<rparr>"
    by (simp_all add: thrifty_def lobby_def locked_def)
  have n: "new_channel quiet (ask ''b'' (Some (Finite 0))) (js ''b'') [(KString (js ''a''), locked)]
     = \<lparr>id_ch = js ''b'', name = js ''b'', maxUsers = Finite 10, hasPassword = False,
        passwordHash = None, createdAt = JString (js ''t'')\<rparr>"
    by (simp add: sample_defs slug_defs ask_def)
  have f: "fst (saveChannelsToDisk quiet st) = Inr ()" for st
    by (simp add: save_succeeds quiet_def)
  have c: "fst (createChannel quiet (ask ''b'' (Some (Finite 0))) (registry thrifty))
     = Inr \<lparr>id_ch = js ''b'', name = js ''b'', maxUsers = Finite 10, hasPassword = False,
            passwordHash = None, createdAt = JString (js ''t'')\<rparr>"
    by (simp add: createChannel_named trim_b r n f js_nonempty)
  have h: "case p_maxUsers (ask ''b'' (Some (Finite 0))) of None \<Rightarrow> True | Some v \<Rightarrow> \<not> gt0 v"
    by (simp add: ask_def)
  have "maxUsers \<lparr>id_ch = js ''b'', name = js ''b'', maxUsers = Finite 10, hasPassword = False,
            passwordHash = None, createdAt = JString (js ''t'')\<rparr> = Finite 10"
    using createChannel_default_capacity [OF h c] .
  then show ?thesis
    using c thrifty_five by simp
qed

text \<open>
  The claim as stated fails: on a server configured with \<open>maxRoomUsers = 5\<close>, a
  channel created without a capacity has capacity 10.
\<close>

theorem createChannel_default_capacity_counterexample:
  "fst (post_channels quiet (ask ''b'' None) thrifty)
     = (201, View \<lparr>id_v = js ''b'', name_v = js ''b'', maxUsers_v = Finite 10,
                     hasPassword_v = False, onlineCount = 0, onlineUsers = []\<rparr>)
   \<and> maxRoomUsers (config thrifty) = Finite 5
   \<and> Finite 10 \<noteq> maxRoomUsers (config thrifty)"
proof -
  have r: "channels (registry thrifty) = [(KString (js ''a''), locked)]"
    by (simp add: thrifty_def lobby_def locked_def)
  have f: "fst (saveChannelsToDisk quiet st) = Inr ()" for st
    by (simp add: save_succeeds quiet_def)
  have c: "fst (createChannel quiet (ask ''b'' None) (registry thrifty))
     = Inr \<lparr>id_ch = js ''b'', name = js ''b'', maxUsers = Finite 10, hasPassword = False,
            passwordHash = None, createdAt = JString (js ''t'')\<rparr>"
    by (simp add: createChannel_named trim_b r new_b f js_nonempty)
  have m: "maxRoomUsers (config thrifty) = Finite 5"
    by (rule thrifty_five)
  show ?thesis
    using post_channels_created [OF c] m by simp
qed

section \<open>Ids in the registry\<close>

lemma set_update_subset: "set (AList.update k v al) \<subseteq> insert (k, v) (set al)"
  by (induction al) auto

lemma keyed_update:
  assumes "keyed m" and "k = KString (id_ch c)"
  shows "keyed (AList.update k c m)"
  using assms set_update_subset [of k c m]
  by (auto simp: keyed_def distinct_update)

lemma keyed_ids: "keyed m \<Longrightarrow> map KString (map id_ch (values_of m)) = map fst m"
  by (auto simp: keyed_def values_of_def)

lemma keyed_distinct_ids:
  assumes "keyed m"
  shows "distinct (map id_ch (values_of m))"
proof -
  have "distinct (map KString (map id_ch (values_of m)))"
    unfolding keyed_ids [OF assms] using assms by (simp add: keyed_def)
  then show ?thesis
    by (auto simp: distinct_map inj_on_def)
qed

lemma keyed_set_all: "keyed m \<Longrightarrow> keyed (set_all xs m)"
  unfolding set_all_def by (induction xs arbitrary: m) (simp_all add: keyed_update)

lemma keyed_empty: "keyed []"
  by (simp add: keyed_def)

text \<open>
  The loader files every channel under its own id when the ids of the file are strings;
  the seeded registries are of this kind.
\<close>

lemma keyed_load_entry:
  assumes "keyed m" and "string_ids [ch]" and "load_entry e k ch m = Some m1"
  shows "keyed m1"
proof (cases "field ch (js ''id'')")
  case None
  with assms show ?thesis by (simp add: load_entry_def)
next
  case (Some i)
  show ?thesis
  proof (cases "field ch (js ''name'')")
    case None
    with Some assms show ?thesis by (simp add: load_entry_def)
  next
    case n: (Some n)
    show ?thesis
    proof (cases "truthy_json ch \<and> truthy_json i \<and> truthy_json n")
      case False
      with Some n assms show ?thesis by (auto simp: load_entry_def)
    next
      case True
      with assms(2) Some obtain t where t: "i = JString t"
        by (cases i) (auto simp: string_ids_def)
      from assms(3) Some n True obtain c where c: "from_stored e ch i n = Some c"
          "m1 = AList.update (key_of k i) c m"
        by (auto simp: load_entry_def split: option.splits)
      from c(1) t have "id_ch c = t"
        by (auto simp: from_stored_def split: option.splits)
      with c(2) t assms(1) show ?thesis
        by (simp add: keyed_update)
    qed
  qed
qed

lemma keyed_load_entries:
  assumes "keyed m" and "string_ids xs" and "load_entries e k xs m = Some m1"
  shows "keyed m1"
  using assms
proof (induction xs arbitrary: m k)
  case Nil
  then show ?case by simp
next
  case (Cons ch xs)
  from Cons.prems(3) obtain m2 where m2: "load_entry e k ch m = Some m2"
      "load_entries e (Suc k) xs m2 = Some m1"
    by (auto split: option.splits)
  have "keyed m2"
    using Cons.prems(1,2) m2(1) by (auto intro: keyed_load_entry simp: string_ids_def)
  then show ?case
    using Cons.IH [of m2 "Suc k"] Cons.prems(2) m2(2) by (simp add: string_ids_def)
qed

lemma keyed_read_file:
  assumes "keyed m" and "\<And>xs. content = Parsed (JArray xs) \<Longrightarrow> string_ids xs"
      and "read_file e content m = Some m1"
  shows "keyed m1"
proof (cases content)
  case Unparsable
  with assms(3) show ?thesis by (simp add: read_file_def)
next
  case (Parsed j)
  show ?thesis
  proof (cases j)
    case (JArray xs)
    with Parsed assms show ?thesis
      by (auto simp: read_file_def intro: keyed_load_entries)
  qed (use Parsed assms in \<open>auto simp: read_file_def\<close>)
qed

lemma keyed_boot:
  assumes "\<And>xs. channelsFile d = Some (Parsed (JArray xs)) \<Longrightarrow> string_ids xs"
  shows "keyed (channels (snd (boot e d)))"
proof (cases "ensureDataDir e d")
  case (Inl err)
  then show ?thesis
    by (simp add: boot_def loadChannelsFromDisk_def keyed_empty)
next
  case (Inr d1)
  then have f: "channelsFile d1 = channelsFile d"
    by (auto simp: ensureDataDir_def split: if_splits)
  show ?thesis
  proof (cases "channelsFile d")
    case None
    with Inr f show ?thesis
      by (simp add: boot_def loadChannelsFromDisk_def keyed_set_all keyed_empty)
  next
    case (Some content)
    show ?thesis
    proof (cases "read_file e content []")
      case None
      with Inr f Some show ?thesis
        by (simp add: boot_def loadChannelsFromDisk_def keyed_set_all keyed_empty)
    next
      case m: (Some m)
      have "keyed m"
        using keyed_empty assms Some m by (auto intro: keyed_read_file)
      with Inr f Some m show ?thesis
        by (simp add: boot_def loadChannelsFromDisk_def)
    qed
  qed
qed


lemma snd_rethrow:
  "snd (case x of (Inl err, st2) \<Rightarrow> (Inl err, st2) | (Inr u, st2) \<Rightarrow> (Inr c, st2)) = snd x"
  by (cases x) (simp split: sum.splits)

lemma channels_createChannel:
  "channels (snd (createChannel e p st)) =
     (if trim (or_empty (p_name p)) = [] then channels st
      else channels st @
             [(KString (id_ch (new_channel e p (trim (or_empty (p_name p))) (channels st))),
               new_channel e p (trim (or_empty (p_name p))) (channels st))])"
  by (simp add: createChannel_named) (simp add: createChannel_def)

lemma id_patched: "id_ch (patched p c) = id_ch c"
  by (simp add: patched_def Let_def split: option.splits)

lemma channels_updateChannel:
  "channels (snd (updateChannel e i p st)) =
     (case map_of (channels st) (KString i) of
        None \<Rightarrow> channels st
      | Some existing \<Rightarrow> AList.update (KString i) (patched p existing) (channels st))"
  by (simp add: updateChannel_def Let_def snd_rethrow split: option.splits)

lemma keyed_create: "keyed (channels st) \<Longrightarrow> keyed (channels (snd (createChannel e p st)))"
  by (simp add: createChannel_def Let_def snd_rethrow keyed_update)

lemma keyed_lookup: "keyed m \<Longrightarrow> map_of m k = Some c \<Longrightarrow> k = KString (id_ch c)"
  by (auto simp: keyed_def dest: map_of_SomeD)

lemma keyed_modify: "keyed (channels st) \<Longrightarrow> keyed (channels (snd (updateChannel e i p st)))"
proof (cases "map_of (channels st) (KString i)")
  case None
  moreover assume "keyed (channels st)"
  ultimately show ?thesis by (simp add: channels_updateChannel)
next
  case (Some c)
  moreover assume k: "keyed (channels st)"
  moreover have "KString i = KString (id_ch (patched p c))"
    using keyed_lookup [OF k Some] by (simp add: id_patched)
  ultimately show ?thesis by (simp add: channels_updateChannel keyed_update)
qed

lemma keyed_step: "keyed (channels st) \<Longrightarrow> keyed (channels (step c st))"
  by (cases c) (simp_all add: keyed_create keyed_modify)

lemma keyed_run: "keyed (channels st) \<Longrightarrow> keyed (channels (run cs st))"
  unfolding run_def by (induction cs arbitrary: st) (simp_all add: keyed_step)

text \<open>
  A channel with a name is put at the end of the registry, under an id that no channel
  of a keyed registry has; \<open>updateChannel\<close> leaves the ids as they are.
\<close>

lemma keyed_free:
  assumes "keyed m" and "\<not> has m (KString i)"
  shows "i \<notin> set (map id_ch (values_of m))"
proof
  assume "i \<in> set (map id_ch (values_of m))"
  then have "KString i \<in> set (map KString (map id_ch (values_of m)))"
    by auto
  then have "KString i \<in> fst ` set m"
    unfolding keyed_ids [OF assms(1)] by simp
  then show False
    using assms(2) by (simp add: has_def map_of_eq_None_iff)
qed

lemma create_appends:
  assumes "keyed (channels st)" and "trim (or_empty (p_name p)) \<noteq> []"
  shows "\<exists>ch. getChannels (snd (createChannel e p st)) = getChannels st @ [ch]
             \<and> id_ch ch \<notin> set (map id_ch (getChannels st))"
  using assms keyed_free [OF assms(1) id_new_channel]
  by (simp add: getChannels_def channels_createChannel values_of_def)

lemma ids_update:
  assumes "map_of m k = Some c" and "id_ch c1 = id_ch c"
  shows "map id_ch (values_of (AList.update k c1 m)) = map id_ch (values_of m)"
  using assms by (induction m) (auto simp: values_of_def)

lemma ids_step:
  assumes "keyed (channels st)"
  shows "\<exists>new. map id_ch (getChannels (step c st)) = map id_ch (getChannels st) @ new
               \<and> length new = (if adds c then 1 else 0)"
proof (cases c)
  case (Create e p)
  show ?thesis
  proof (cases "trim (or_empty (p_name p)) = []")
    case True
    with Create show ?thesis
      by (simp add: getChannels_def channels_createChannel)
  next
    case False
    with Create create_appends [OF assms False, of e] show ?thesis
      by auto
  qed
next
  case (Update e i p)
  then show ?thesis
    by (auto simp: getChannels_def channels_updateChannel ids_update id_patched
          split: option.splits)
qed

lemma ids_run:
  assumes "keyed (channels st)"
  shows "\<exists>new. map id_ch (getChannels (run cs st)) = map id_ch (getChannels st) @ new
               \<and> length new = length (filter adds cs)"
  using assms
proof (induction cs arbitrary: st)
  case Nil
  then show ?case by (simp add: run_def)
next
  case (Cons c cs)
  obtain n1 where n1: "map id_ch (getChannels (step c st)) = map id_ch (getChannels st) @ n1"
      "length n1 = (if adds c then 1 else 0)"
    using ids_step [OF Cons.prems] by blast
  obtain n2 where n2: "map id_ch (getChannels (run cs (step c st)))
        = map id_ch (getChannels (step c st)) @ n2" "length n2 = length (filter adds cs)"
    using Cons.IH [OF keyed_step [OF Cons.prems]] by blast
  have "run (c # cs) st = run cs (step c st)"
    by (simp add: run_def)
  with n1 n2 show ?case
    by (intro exI [of _ "n1 @ n2"]) auto
qed

text \<open>
  Claim C5, as the code has it. In a registry where every channel is filed under its own
  id, \<open>createChannel\<close> with a name puts one more channel at the end, under an id that no
  channel has, and leaves the others: a name whose slug is taken gets a longer id, it
  does not replace the channel that has the slug. So a run of calls adds one id for each
  \<open>createChannel\<close> with a name, and no two channels share an id. The loop that looks for
  a free id ends for every random source, since each round makes the id longer:
  \<open>free_id\<close> is a total function.
\<close>

theorem registry_ids_distinct:
  assumes "keyed (channels st)"
  shows "(trim (or_empty (p_name p)) \<noteq> [] \<longrightarrow>
            (\<exists>ch. getChannels (snd (createChannel e p st)) = getChannels st @ [ch]
                  \<and> id_ch ch \<notin> set (map id_ch (getChannels st))))
       \<and> (\<exists>new. map id_ch (getChannels (run cs st)) = map id_ch (getChannels st) @ new
                  \<and> length new = length (filter adds cs))
       \<and> distinct (map id_ch (getChannels (run cs st)))"
  using create_appends [OF assms] ids_run [OF assms]
    keyed_distinct_ids [OF keyed_run [OF assms]]
  by (simp add: getChannels_def)


text \<open>
  Two channels created with the name \<open>General\<close> on the seeded registry: the second
  gets the random suffix.
\<close>

lemma boot_no_disk:
  "channels (snd (boot quiet no_disk)) =
     [(KString (js ''dota 2''), seed quiet (js ''dota 2'') [1054, 1073, 1097, 1080, 1081]),
      (KString (js ''coop''), seed quiet (js ''coop'') [1048, 1075, 1088, 1099]),
      (KString (js ''squad''), seed quiet (js ''squad'') [1048, 1075, 1088, 1099])]"
  by (simp add: boot_def loadChannelsFromDisk_def ensureDataDir_def no_disk_def quiet_def
        set_all_def initial_absent_def seed_def js_def)

lemma ask_general:
  "trim (or_empty (p_name (ask ''General'' c))) = js ''General''"
  by (simp add: sample_defs ask_def)

lemma slug_general: "fst (slugify quiet (js ''General'')) = js ''general''"
  "snd (slugify quiet (js ''General'')) = random quiet"
  by (simp_all add: slugify_def quiet_def plain_lower_def slug_unit_plain strip_hyphens_def js_def)

lemma free_id_keys:
  "free_id m rnd k i =
     (if KString i \<in> set (map fst m) then free_id m rnd (Suc k) (i @ [45] @ slice 2 5 (rnd k))
      else i)"
  by (subst free_id.simps) (simp add: has_def map_of_eq_None_iff)

lemma keys_createChannel:
  assumes "trim (or_empty (p_name p)) = n" and "n \<noteq> []"
  shows "map fst (channels (snd (createChannel e p st))) =
     map fst (channels st) @ [KString (free_id (channels st) (snd (slugify e n)) 0
                                (fst (slugify e n)))]"
proof -
  have "id_ch (new_channel e p n (channels st))
      = free_id (channels st) (snd (slugify e n)) 0 (fst (slugify e n))"
    by (simp add: new_channel_def split_beta Let_def)
  then show ?thesis
    using assms by (simp add: channels_createChannel)
qed

lemma keys_boot:
  "map fst (channels (snd (boot quiet no_disk)))
   = [KString (js ''dota 2''), KString (js ''coop''), KString (js ''squad'')]"
  by (simp add: boot_no_disk)

lemma general_1:
  "map fst (channels (snd (createChannel quiet (ask ''General'' None) (snd (boot quiet no_disk)))))
   = [KString (js ''dota 2''), KString (js ''coop''), KString (js ''squad''), KString (js ''general'')]"
proof -
  have n: "js ''General'' \<noteq> []"
    by (simp add: js_def)
  have f: "KString (js ''general'')
             \<notin> set [KString (js ''dota 2''), KString (js ''coop''), KString (js ''squad'')]"
    by (simp add: js_def)
  have "free_id (channels (snd (boot quiet no_disk))) (random quiet) 0 (js ''general'') = js ''general''"
    by (subst free_id_keys) (simp only: keys_boot f if_False)
  then show ?thesis
    by (simp add: keys_createChannel [OF ask_general n] slug_general keys_boot)
qed

lemma general_2:
  "map fst (channels (snd (createChannel quiet (ask ''General'' None)
       (snd (createChannel quiet (ask ''General'' None) (snd (boot quiet no_disk)))))))
   = [KString (js ''dota 2''), KString (js ''coop''), KString (js ''squad''),
      KString (js ''general''), KString (js ''general-abc'')]"
proof -
  have a: "js ''general'' @ [45] @ slice 2 5 (random quiet 0) = js ''general-abc''"
    by (simp add: js_def slice_def quiet_def)
  have n: "js ''General'' \<noteq> []"
    by (simp add: js_def)
  have t: "KString (js ''general'')
             \<in> set [KString (js ''dota 2''), KString (js ''coop''), KString (js ''squad''),
                    KString (js ''general'')]"
    by simp
  have f: "KString (js ''general-abc'')
             \<notin> set [KString (js ''dota 2''), KString (js ''coop''), KString (js ''squad''),
                    KString (js ''general'')]"
    by (simp add: js_def)
  let ?m = "channels (snd (createChannel quiet (ask ''General'' None) (snd (boot quiet no_disk))))"
  have 1: "free_id ?m (random quiet) 0 (js ''general'') = free_id ?m (random quiet) (Suc 0) (js ''general-abc'')"
    by (subst free_id_keys) (simp only: general_1 t if_True a)
  have 2: "free_id ?m (random quiet) (Suc 0) (js ''general-abc'') = js ''general-abc''"
    by (subst free_id_keys) (simp only: general_1 f if_False)
  have k: "map fst (channels (snd (createChannel quiet (ask ''General'' None) st)))
         = map fst (channels st) @ [KString (free_id (channels st) (random quiet) 0 (js ''general''))]" for st
    by (simp add: keys_createChannel [OF ask_general n] slug_general)
  show ?thesis
    by (subst k) (simp only: general_1 1 2 append.simps)
qed

lemma unkey: "map KString xs = map KString ys \<Longrightarrow> xs = ys"
  by (induction xs arbitrary: ys) auto

lemma keyed_seeded: "keyed (channels (snd (boot quiet no_disk)))"
  by (rule keyed_boot) (simp add: no_disk_def)

theorem registry_ids_distinct_witness:
  "keyed (channels (snd (boot quiet no_disk)))
   \<and> map id_ch (getChannels (snd (boot quiet no_disk))) = [js ''dota 2'', js ''coop'', js ''squad'']
   \<and> map id_ch (getChannels (run [Create quiet (ask ''General'' None), Create quiet (ask ''General'' None)]
                              (snd (boot quiet no_disk))))
       = [js ''dota 2'', js ''coop'', js ''squad'', js ''general'', js ''general-abc'']
   \<and> distinct (map id_ch (getChannels
         (run [Create quiet (ask ''General'' None), Create quiet (ask ''General'' None)]
              (snd (boot quiet no_disk)))))"
proof -
  let ?cs = "[Create quiet (ask ''General'' None), Create quiet (ask ''General'' None)]"
  let ?st = "snd (boot quiet no_disk)"
  have h: "keyed (channels ?st)"
    by (rule keyed_seeded)
  have r: "run ?cs ?st = snd (createChannel quiet (ask ''General'' None)
                           (snd (createChannel quiet (ask ''General'' None) ?st)))"
    by (simp add: run_def)
  have "map KString (map id_ch (getChannels (run ?cs ?st)))
      = map KString [js ''dota 2'', js ''coop'', js ''squad'', js ''general'', js ''general-abc'']"
    unfolding getChannels_def keyed_ids [OF keyed_run [OF h]] unfolding r general_2 by simp
  then have k: "map id_ch (getChannels (run ?cs ?st))
         = [js ''dota 2'', js ''coop'', js ''squad'', js ''general'', js ''general-abc'']"
    by (rule unkey)
  have b: "map id_ch (getChannels ?st) = [js ''dota 2'', js ''coop'', js ''squad'']"
    by (simp add: getChannels_def values_of_def boot_no_disk seed_def)
  show ?thesis
    using h k b registry_ids_distinct [OF h, of "ask ''General'' None" quiet ?cs] by simp
qed

text \<open>
  The claim as stated fails on a registry that was loaded from a file with an id that is
  not a string. The loader files the entry under the number \<open>5\<close> and gives the channel
  the id \<open>String(5)\<close>; the \<open>Map\<close> has no key \<open>'5'\<close>, so a channel created with the name
  \<open>5\<close> gets the id \<open>5\<close> as well.
\<close>

lemma boot_by_hand:
  "boot quiet by_hand =
     (Inr (),
      \<lparr>channels = [(KNumber (Finite 5),
                     \<lparr>id_ch = js ''5'', name = js ''five'', maxUsers = Finite 10,
                      hasPassword = False, passwordHash = None, createdAt = JString (js ''t'')\<rparr>)],
       disk = by_hand\<rparr>)"
  by (simp add: boot_def loadChannelsFromDisk_def ensureDataDir_def by_hand_def read_file_def
        load_entry_def from_stored_def to_number_def quiet_def digit_string_def js_def)

lemma slug_five: "slugify quiet (js ''5'') = (js ''5'', random quiet)"
  by (simp add: slugify_def quiet_def plain_lower_def slug_unit_plain strip_hyphens_def js_def)

theorem registry_ids_distinct_counterexample:
  "map id_ch (getChannels (snd (boot quiet by_hand))) = [js ''5'']
   \<and> map id_ch (getChannels (snd (createChannel quiet (ask ''5'' None) (snd (boot quiet by_hand)))))
       = [js ''5'', js ''5'']"
proof -
  have t: "trim (or_empty (p_name (ask ''5'' None))) = js ''5''"
    by (simp add: sample_defs ask_def)
  have n: "js ''5'' \<noteq> []"
    by (simp add: js_def)
  have f: "free_id [(KNumber (Finite 5), c)] r 0 (js ''5'') = js ''5''" for c r
    by (subst free_id_keys) simp
  have i: "id_ch (new_channel quiet (ask ''5'' None) (js ''5'') [(KNumber (Finite 5), c)]) = js ''5''" for c
    by (simp add: new_channel_def split_beta Let_def slug_five f)
  show ?thesis
    by (simp add: boot_by_hand getChannels_def values_of_def channels_createChannel t n i)
qed

section \<open>Saving and loading\<close>

lemma field_stringify:
  "field (stringify c) (js ''id'') = Some (JString (id_ch c))"
  "field (stringify c) (js ''name'') = Some (JString (name c))"
  "field (stringify c) (js ''maxUsers'')
     = Some (if isFinite (maxUsers c) then JNumber (maxUsers c) else JNull)"
  "field (stringify c) (js ''hasPassword'') = Some (JBool (hasPassword c))"
  "field (stringify c) (js ''passwordHash'') = map_option JString (passwordHash c)"
  by (simp_all add: stringify_def js_def split: option.splits)

lemma truthy_stringify: "truthy_json (stringify c)"
  by (simp add: stringify_def)

lemma essence_reload:
  assumes "isFinite (maxUsers c)" "truthy (maxUsers c)" "passwordHash c \<noteq> Some []"
  shows "\<exists>c'. from_stored e (stringify c) (JString (id_ch c)) (JString (name c)) = Some c'
             \<and> essence c' = essence c"
  using assms
  by (cases "passwordHash c") (simp_all add: essence_def from_stored_def field_stringify to_number_def)

lemma load_stringify:
  assumes "id_ch c \<noteq> []" "name c \<noteq> []" "isFinite (maxUsers c)" "truthy (maxUsers c)"
      and "passwordHash c \<noteq> Some []" and "map_of acc (KString (id_ch c)) = None"
  shows "\<exists>c'. load_entry e k (stringify c) acc = Some (acc @ [(KString (id_ch c), c')])
             \<and> essence c' = essence c"
proof -
  from essence_reload [OF assms(3-5), of e] obtain c'
    where c': "from_stored e (stringify c) (JString (id_ch c)) (JString (name c)) = Some c'"
      "essence c' = essence c"
    by blast
  show ?thesis
    using assms(1,2,6) c' truthy_stringify [of c] by (simp add: load_entry_def field_stringify update_absent)
qed

lemma load_entries_stringify:
  assumes "storable m" and "distinct (map fst acc @ map fst m)"
  shows "\<exists>m'. load_entries e k (map stringify (values_of m)) acc = Some (acc @ m')
             \<and> map fst m' = map fst m
             \<and> map essence (values_of m') = map essence (values_of m)"
  using assms
proof (induction m arbitrary: acc k)
  case Nil
  then show ?case by (simp add: values_of_def)
next
  case (Cons x m)
  obtain i c where x: "x = (i, c)" by (cases x)
  from Cons.prems x have c: "i = KString (id_ch c)" "id_ch c \<noteq> []" "name c \<noteq> []"
      "isFinite (maxUsers c)" "truthy (maxUsers c)" "passwordHash c \<noteq> Some []"
    by (auto simp: storable_def keyed_def)
  from Cons.prems x have "i \<notin> fst ` set acc"
    by auto
  then have "map_of acc (KString (id_ch c)) = None"
    using c(1) by (simp add: map_of_eq_None_iff)
  from load_stringify [OF c(2-6) this, of e k] obtain c'
    where l: "load_entry e k (stringify c) acc = Some (acc @ [(i, c')])"
      and s: "essence c' = essence c"
    using c(1) by auto
  have d: "distinct (map fst (acc @ [(i, c')]) @ map fst m)"
    using Cons.prems(2) x by auto
  have r: "storable m"
    using Cons.prems(1) by (auto simp: storable_def keyed_def)
  from Cons.IH [OF r d, of "Suc k"] obtain m'
    where m': "load_entries e (Suc k) (map stringify (values_of m)) (acc @ [(i, c')])
                 = Some ((acc @ [(i, c')]) @ m')"
      "map fst m' = map fst m" "map essence (values_of m') = map essence (values_of m)"
    by blast
  have "load_entries e k (map stringify (values_of (x # m))) acc = Some (acc @ ((i, c') # m'))"
    using l m'(1) by (simp add: x values_of_def)
  moreover have "map fst ((i, c') # m') = map fst (x # m)"
    using m'(2) by (simp add: x)
  moreover have "map essence (values_of ((i, c') # m')) = map essence (values_of (x # m))"
    using m'(3) s by (simp add: x values_of_def)
  ultimately show ?case
    by blast
qed

lemma boot_after_save:
  "boot e \<lparr>dir_exists = True, channelsFile = Some (Parsed (JArray xs))\<rparr>
     = (case load_entries e 0 xs [] of
          Some m \<Rightarrow> (Inr (), \<lparr>channels = m,
                       disk = \<lparr>dir_exists = True, channelsFile = Some (Parsed (JArray xs))\<rparr>\<rparr>)
        | None \<Rightarrow> saveChannelsToDisk e
                   \<lparr>channels = set_all (initial_broken e) [],
                    disk = \<lparr>dir_exists = True, channelsFile = Some (Parsed (JArray xs))\<rparr>\<rparr>)"
  by (simp add: boot_def loadChannelsFromDisk_def ensureDataDir_def read_file_def
        split: option.splits)

lemma save_ok_disk:
  assumes "fst (saveChannelsToDisk e st) = Inr ()"
  shows "disk (snd (saveChannelsToDisk e st))
         = \<lparr>dir_exists = True,
            channelsFile = Some (Parsed (JArray (map stringify (values_of (channels st)))))\<rparr>"
  using assms
  by (auto simp: saveChannelsToDisk_def ensureDataDir_def Let_def split: if_splits)

lemma reload_channels:
  assumes "storable (channels st)" and "fst (saveChannelsToDisk e st) = Inr ()"
  shows "fst (boot e' (disk (snd (saveChannelsToDisk e st)))) = Inr ()
       \<and> map fst (channels (snd (boot e' (disk (snd (saveChannelsToDisk e st)))))) = map fst (channels st)
       \<and> map essence (values_of (channels (snd (boot e' (disk (snd (saveChannelsToDisk e st)))))))
           = map essence (values_of (channels st))"
proof -
  have d: "distinct (map fst [] @ map fst (channels st))"
    using assms(1) by (simp add: storable_def keyed_def)
  from load_entries_stringify [OF assms(1) d, of e' 0] obtain m'
    where "load_entries e' 0 (map stringify (values_of (channels st))) [] = Some m'"
      "map fst m' = map fst (channels st)"
      "map essence (values_of m') = map essence (values_of (channels st))"
    by auto
  then show ?thesis
    by (simp add: save_ok_disk [OF assms(2)] boot_after_save)
qed


lemma save_quiet: "fst (saveChannelsToDisk quiet st) = Inr ()"
  by (simp add: save_succeeds quiet_def)





subsection \<open>Registries that the file can hold\<close>

text \<open>
  The registry that the process seeds is of this kind, and stays so when it is written
  and loaded again, when a channel is updated, and when a channel is created with a
  requested capacity other than \<open>Infinity\<close>.
\<close>

lemma free_id_length: "length i \<le> length (free_id m rnd k i)"
proof (induction m rnd k i rule: free_id.induct)
  case (1 m rnd k i)
  show ?case
  proof (cases "has m (KString i)")
    case True
    then have "free_id m rnd k i = free_id m rnd (Suc k) (i @ [45] @ slice 2 5 (rnd k))"
      by (subst free_id.simps) simp
    with 1 [OF True] show ?thesis by simp
  next
    case False
    then show ?thesis by (subst free_id.simps) simp
  qed
qed

lemma slugify_nonempty: "fst (slugify e n) \<noteq> []"
  by (simp add: slugify_def Let_def js_def)

lemma new_channel_fields:
  "id_ch (new_channel e p n m) \<noteq> []"
  "name (new_channel e p n m) = n"
  "passwordHash (new_channel e p n m) \<noteq> Some []"
  "truthy (maxUsers (new_channel e p n m))"
proof -
  show "id_ch (new_channel e p n m) \<noteq> []"
    using free_id_length [of "fst (slugify e n)" m "snd (slugify e n)" 0]
      slugify_nonempty [of e n]
    by (auto simp: new_channel_def Let_def split_beta)
  show "name (new_channel e p n m) = n"
    by (simp add: new_channel_def Let_def split_beta)
  show "passwordHash (new_channel e p n m) \<noteq> Some []"
    by (simp add: new_channel_def Let_def split_beta nonempty_def split: option.splits)
  show "truthy (maxUsers (new_channel e p n m))"
    by (cases "p_maxUsers p"; cases "the (p_maxUsers p)")
       (auto simp: new_channel_def Let_def split_beta)
qed

lemma new_channel_finite:
  assumes "case p_maxUsers p of None \<Rightarrow> True | Some v \<Rightarrow> v \<noteq> PosInfinity"
  shows "isFinite (maxUsers (new_channel e p n m))"
  using assms
  by (cases "p_maxUsers p"; cases "the (p_maxUsers p)")
     (auto simp: new_channel_def Let_def split_beta)

lemma storable_update:
  assumes "storable m" and "k = KString (id_ch c)" and "id_ch c \<noteq> []" and "name c \<noteq> []"
      and "isFinite (maxUsers c)" and "truthy (maxUsers c)" and "passwordHash c \<noteq> Some []"
  shows "storable (AList.update k c m)"
  using assms set_update_subset [of k c m]
  by (auto simp: storable_def keyed_update)

lemma storable_create:
  assumes "storable (channels st)"
      and "case p_maxUsers p of None \<Rightarrow> True | Some v \<Rightarrow> v \<noteq> PosInfinity"
  shows "storable (channels (snd (createChannel e p st)))"
proof (cases "trim (or_empty (p_name p)) = []")
  case True
  with assms(1) show ?thesis by (simp add: channels_createChannel)
next
  case False
  let ?c = "new_channel e p (trim (or_empty (p_name p))) (channels st)"
  have "map_of (channels st) (KString (id_ch ?c)) = None"
    using id_new_channel [of "channels st" e p] by (simp add: has_def)
  then have "channels (snd (createChannel e p st)) = AList.update (KString (id_ch ?c)) ?c (channels st)"
    using False by (simp add: channels_createChannel update_absent)
  then show ?thesis
    using assms False by (simp add: storable_update new_channel_fields new_channel_finite)
qed

lemma gt0_truthy: "gt0 v \<Longrightarrow> truthy v"
  by (cases v) auto

lemma patched_fields:
  assumes "name c \<noteq> []" "isFinite (maxUsers c)" "truthy (maxUsers c)" "passwordHash c \<noteq> Some []"
  shows "name (patched p c) \<noteq> []" "isFinite (maxUsers (patched p c))"
        "truthy (maxUsers (patched p c))" "passwordHash (patched p c) \<noteq> Some []"
  using assms
  by (auto simp: patched_def Let_def nonempty_def gt0_truthy split: option.splits)

lemma storable_modify:
  assumes "storable (channels st)"
  shows "storable (channels (snd (updateChannel e i p st)))"
proof (cases "map_of (channels st) (KString i)")
  case None
  with assms show ?thesis by (simp add: channels_updateChannel)
next
  case (Some c)
  have k: "keyed (channels st)"
    using assms by (simp add: storable_def)
  have m: "(KString i, c) \<in> set (channels st)"
    using Some by (rule map_of_SomeD)
  with assms have f: "id_ch c \<noteq> []" "name c \<noteq> []" "isFinite (maxUsers c)" "truthy (maxUsers c)"
      "passwordHash c \<noteq> Some []"
    by (auto simp: storable_def)
  have "KString i = KString (id_ch (patched p c))"
    using keyed_lookup [OF k Some] by (simp add: id_patched)
  then show ?thesis
    using Some assms f
    by (simp add: channels_updateChannel storable_update patched_fields id_patched)
qed

lemma storable_seeded: "storable (channels (snd (boot e \<lparr>dir_exists = x, channelsFile = None\<rparr>)))"
  by (simp add: boot_def loadChannelsFromDisk_def ensureDataDir_def saveChannelsToDisk_def
        set_all_def initial_absent_def seed_def js_def storable_def keyed_def)

lemma storable_reseeded:
  "storable (channels (snd (boot e \<lparr>dir_exists = x, channelsFile = Some Unparsable\<rparr>)))"
  by (simp add: boot_def loadChannelsFromDisk_def ensureDataDir_def saveChannelsToDisk_def
        read_file_def set_all_def initial_broken_def seed_def js_def storable_def keyed_def)

lemma storable_essence:
  assumes "storable m" and "map fst m' = map fst m"
      and "map essence (values_of m') = map essence (values_of m)"
  shows "storable m'"
proof -
  have l: "length m' = length m"
    using assms(2) by (metis length_map)
  have e: "\<And>k. k < length m \<Longrightarrow> fst (m' ! k) = fst (m ! k) \<and> essence (snd (m' ! k)) = essence (snd (m ! k))"
  proof -
    fix k assume k: "k < length m"
    have "map fst m' ! k = map fst m ! k"
      using assms(2) by simp
    moreover have "map essence (map snd m') ! k = map essence (map snd m) ! k"
      using assms(3) by (simp add: values_of_def)
    ultimately show "fst (m' ! k) = fst (m ! k) \<and> essence (snd (m' ! k)) = essence (snd (m ! k))"
      using k l by simp
  qed
  have "\<forall>(k, c) \<in> set m'. k = KString (id_ch c) \<and> id_ch c \<noteq> [] \<and> name c \<noteq> []
          \<and> isFinite (maxUsers c) \<and> truthy (maxUsers c) \<and> passwordHash c \<noteq> Some []"
  proof (clarify)
    fix k c assume "(k, c) \<in> set m'"
    then obtain j where j: "j < length m'" "m' ! j = (k, c)"
      by (auto simp: in_set_conv_nth)
    then have "m ! j \<in> set m"
      using l by simp
    then have "fst (m ! j) = KString (id_ch (snd (m ! j))) \<and> id_ch (snd (m ! j)) \<noteq> []
        \<and> name (snd (m ! j)) \<noteq> [] \<and> isFinite (maxUsers (snd (m ! j)))
        \<and> truthy (maxUsers (snd (m ! j))) \<and> passwordHash (snd (m ! j)) \<noteq> Some []"
      using assms(1) by (auto simp: storable_def keyed_def)
    moreover have "fst (m ! j) = k \<and> essence (snd (m ! j)) = essence c"
      using e [of j] j l by simp
    ultimately show "k = KString (id_ch c) \<and> id_ch c \<noteq> [] \<and> name c \<noteq> []
          \<and> isFinite (maxUsers c) \<and> truthy (maxUsers c) \<and> passwordHash c \<noteq> Some []"
      by (simp add: essence_def)
  qed
  then show ?thesis
    using assms(1,2) unfolding storable_def keyed_def by auto
qed

lemma storable_reload:
  assumes "storable (channels st)" and "fst (saveChannelsToDisk e st) = Inr ()"
  shows "storable (channels (snd (boot e' (disk (snd (saveChannelsToDisk e st))))))"
  using reload_channels [OF assms, of e'] assms(1) by (blast intro: storable_essence)

section \<open>Admission\<close>

lemma others_update:
  assumes "\<forall>(k, m) \<in> set ms. socketId m = k" and "socketId v = sid"
  shows "filter (\<lambda>m. socketId m \<noteq> sid) (values_of (AList.update sid v ms))
       = filter (\<lambda>m. socketId m \<noteq> sid) (values_of ms)"
  using assms by (induction ms) (auto simp: values_of_def)

lemma values_members_for: "values_of (fst (members_for c s)) = present s c"
  by (simp add: members_for_def present_def values_of_def split: option.splits)

lemma filed_members_for:
  "filed s \<Longrightarrow> \<forall>(k, m) \<in> set (fst (members_for c s)). socketId m = k"
  by (auto simp: filed_def members_for_def split: option.splits dest!: map_of_SomeD)

lemma admit_state:
  "map_of (channelMembers (snd (admit e sid p c eff ms s))) c
     = Some (AList.update sid \<lparr>socketId = sid,
                     name_m = (if or_empty (userName p) \<noteq> [] then or_empty (userName p)
                               else no_name),
                     joinedAt = now e\<rparr> ms)"
  "map_of (socketChannelMap (snd (admit e sid p c eff ms s))) sid = Some c"
  by (simp_all add: admit_def Let_def update_conv')

lemma members_for_state:
  "fst (members_for c s) = (case map_of (channelMembers s) c of Some ms \<Rightarrow> ms | None \<Rightarrow> [])"
  "AList.update c v (channelMembers (snd (members_for c s))) = AList.update c v (channelMembers s)"
  "socketChannelMap (snd (members_for c s)) = socketChannelMap s"
  "snd (members_for c s)\<lparr>channelMembers := x, socketChannelMap := y\<rparr>
     = s\<lparr>channelMembers := x, socketChannelMap := y\<rparr>"
  by (simp_all add: members_for_def split: option.splits)

text \<open>
  Claim C8. A join request is admitted when the handler sends \<open>room-users\<close>. Then it
  has put the joiner into the member \<open>Map\<close> of the channel (a new \<open>Map\<close> when the
  channel had none) and recorded the channel for it in the reverse map, and it has
  changed nothing else: no other channel, no other member, no other entry of the
  reverse map, not the registry. The peer list sent to the joiner is the members that
  the channel had before the insertion other than the joiner, in their order; the joiner
  is never in it, and when the joiner was not a member before, it is all the members
  the channel had.
\<close>

theorem admission_result:
  assumes "filed s"
      and "SocketEmit t (RoomUsers r users cap) \<in> set (fst (join_room e sid p s))"
  shows "t = sid \<and> r = trim (or_empty (roomId p))
       \<and> snd (join_room e sid p s)
           = s\<lparr>channelMembers :=
                  AList.update r
                    (AList.update sid
                       \<lparr>socketId = sid,
                        name_m = (if or_empty (userName p) \<noteq> [] then or_empty (userName p)
                                  else no_name),
                        joinedAt = now e\<rparr>
                       (case map_of (channelMembers s) r of Some ms \<Rightarrow> ms | None \<Rightarrow> []))
                    (channelMembers s),
                socketChannelMap := AList.update sid r (socketChannelMap s)\<rparr>
       \<and> (\<exists>ms m. map_of (channelMembers (snd (join_room e sid p s))) r = Some ms
                 \<and> map_of ms sid = Some m \<and> socketId m = sid)
       \<and> map_of (socketChannelMap (snd (join_room e sid p s))) sid = Some r
       \<and> users = map public (filter (\<lambda>m. socketId m \<noteq> sid) (present s r))
       \<and> sid \<notin> set (map socketId_u users)
       \<and> (sid \<notin> set (map socketId (present s r)) \<longrightarrow> users = map public (present s r))"
proof (cases "getChannel (registry s) (trim (or_empty (roomId p)))")
  case None
  with assms(2) show ?thesis
    by (simp add: join_room_def Let_def split: if_splits)
next
  case (Some ch)
  let ?c = "trim (or_empty (roomId p))"
  let ?ms = "fst (members_for ?c s)"
  let ?s1 = "snd (members_for ?c s)"
  let ?eff = "effectiveMaxUsers (config s) ch"
  let ?m = "\<lparr>socketId = sid,
             name_m = (if or_empty (userName p) \<noteq> [] then or_empty (userName p) else no_name),
             joinedAt = now e\<rparr>"
  from assms(2) Some have j: "join_room e sid p s = admit e sid p ?c ?eff ?ms ?s1"
    by (simp add: join_room_def Let_def split_beta split: if_splits)
  from assms(2) have e: "t = sid" "r = ?c" "cap = ?eff"
      "users = map public (filter (\<lambda>m. socketId m \<noteq> sid) (values_of (AList.update sid ?m ?ms)))"
    unfolding j admit_effects by auto
  have o: "filter (\<lambda>m. socketId m \<noteq> sid) (values_of (AList.update sid ?m ?ms))
         = filter (\<lambda>m. socketId m \<noteq> sid) (present s ?c)"
    using others_update [OF filed_members_for [OF assms(1)], of ?m sid ?c]
    by (simp add: values_members_for)
  have u: "users = map public (filter (\<lambda>m. socketId m \<noteq> sid) (present s r))"
    using e o by simp
  have n: "sid \<notin> set (map socketId_u users)"
    unfolding u by (auto simp: public_def)
  have w: "users = map public (present s r)" if "sid \<notin> set (map socketId (present s r))"
  proof -
    have "filter (\<lambda>m. socketId m \<noteq> sid) (present s r) = present s r"
      using that by (auto intro: filter_True)
    then show ?thesis
      using u by simp
  qed
  have st: "snd (join_room e sid p s)
          = s\<lparr>channelMembers :=
                 AList.update r (AList.update sid ?m
                   (case map_of (channelMembers s) r of Some ms \<Rightarrow> ms | None \<Rightarrow> []))
                   (channelMembers s),
               socketChannelMap := AList.update sid r (socketChannelMap s)\<rparr>"
    unfolding j e(2) by (simp add: admit_def Let_def members_for_state)
  have a: "map_of (channelMembers (snd (join_room e sid p s))) r = Some (AList.update sid ?m ?ms)"
          "map_of (socketChannelMap (snd (join_room e sid p s))) sid = Some r"
    unfolding j e by (rule admit_state)+
  have b: "map_of (AList.update sid ?m ?ms) sid = Some ?m"
    by (simp add: update_conv')
  have x: "\<exists>ms m. map_of (channelMembers (snd (join_room e sid p s))) r = Some ms
                 \<and> map_of ms sid = Some m \<and> socketId m = sid"
    using a(1) b by auto
  show ?thesis
    using e(1,2) st x a(2) u n w by blast
qed

lemma set_delete_subset: "set (AList.delete k al) \<subseteq> set al"
  by (induction al) auto

text \<open>The handlers keep every member filed under its own socket id.\<close>

lemma filed_update:
  assumes "filed s" and "\<forall>(k, m) \<in> set ms. socketId m = k"
  shows "filed (s\<lparr>channelMembers := AList.update c ms (channelMembers s)\<rparr>)"
  using assms set_update_subset [of c ms "channelMembers s"]
  by (fastforce simp: filed_def)

lemma filed_socketChannelMap [simp]: "filed (s\<lparr>socketChannelMap := x\<rparr>) = filed s"
  by (simp add: filed_def)

lemma filed_snd_members_for: "filed s \<Longrightarrow> filed (snd (members_for c s))"
  by (auto simp: members_for_def filed_update split: option.splits)

lemma filed_admit:
  assumes "filed s" and "\<forall>(k, m) \<in> set ms. socketId m = k"
  shows "filed (snd (admit e sid p c eff ms s))"
proof -
  let ?m = "\<lparr>socketId = sid,
             name_m = (if or_empty (userName p) \<noteq> [] then or_empty (userName p) else no_name),
             joinedAt = now e\<rparr>"
  have "\<forall>(k, m) \<in> set (AList.update sid ?m ms). socketId m = k"
    using assms(2) set_update_subset [of sid ?m ms] by auto
  then show ?thesis
    using filed_update [OF assms(1), of "AList.update sid ?m ms" c]
    by (simp add: admit_def Let_def)
qed

lemma filed_join_room:
  assumes "filed s"
  shows "filed (snd (join_room e sid p s))"
proof -
  have "filed (snd (admit e sid p c eff (fst (members_for c s)) (snd (members_for c s))))" for c eff
    by (rule filed_admit [OF filed_snd_members_for [OF assms] filed_members_for [OF assms]])
  then show ?thesis
    using assms
    by (simp add: join_room_def Let_def split_beta filed_snd_members_for split: option.splits)
qed

lemma filed_disconnect:
  assumes "filed s"
  shows "filed (snd (disconnect sid s))"
proof -
  have d: "filed (s\<lparr>channelMembers := AList.delete c (channelMembers s)\<rparr>)" for c
    using assms set_delete_subset [of c "channelMembers s"] by (fastforce simp: filed_def)
  have u: "filed (s\<lparr>channelMembers := AList.update c (AList.delete sid ms) (channelMembers s)\<rparr>)"
    if "map_of (channelMembers s) c = Some ms" for c ms
  proof -
    have "\<forall>(k, m) \<in> set ms. socketId m = k"
      using assms map_of_SomeD [OF that] by (auto simp: filed_def)
    then have "\<forall>(k, m) \<in> set (AList.delete sid ms). socketId m = k"
      using set_delete_subset [of sid ms] by auto
    then show ?thesis
      by (rule filed_update [OF assms])
  qed
  show ?thesis
    using assms d u
    by (auto simp: disconnect_def Let_def split_beta split: option.splits)
qed

lemma once_eq:
  "once = (lobby hall [(js ''a'', [(js ''s1'', guest (js ''s1''))])])
            \<lparr>socketChannelMap := [(js ''s1'', js ''a'')]\<rparr>"
  by (simp add: once_def sample_defs join_room_def members_for_def wrong_password_def admit_def
        hall_def getChannel_def)

lemma filed_once: "filed once"
  unfolding once_def by (rule filed_join_room) (simp add: filed_def lobby_def)

lemma present_once: "map public (present once (js ''a'')) = [\<lparr>socketId_u = js ''s1'', name_u = no_name\<rparr>]"
  by (simp add: once_eq present_def lobby_def values_of_def public_def guest_def)

text \<open>
  The socket \<open>s2\<close> joins the channel that \<open>s1\<close> is in: its peer list is \<open>s1\<close>, and both
  are members afterwards. When \<open>s1\<close> joins its channel again, its peer list is empty.
\<close>

lemma again_once:
  "SocketEmit (js ''s1'') (RoomUsers (js ''a'') [] (Finite 10))
       \<in> set (fst (join_room quiet (js ''s1'') (knock None) once))"
  by (simp add: once_eq sample_defs join_room_def members_for_def wrong_password_def admit_def
        hall_def values_of_def public_def getChannel_def)

theorem admission_result_witness:
  "filed once
   \<and> SocketEmit (js ''s2'') (RoomUsers (js ''a'') [\<lparr>socketId_u = js ''s1'', name_u = no_name\<rparr>] (Finite 10))
       \<in> set (fst (join_room quiet (js ''s2'') (knock None) once))
   \<and> js ''s2'' \<notin> set (map socketId (present once (js ''a'')))
   \<and> map_of (socketChannelMap (snd (join_room quiet (js ''s2'') (knock None) once))) (js ''s2'')
       = Some (js ''a'')
   \<and> map public (present once (js ''a'')) = [\<lparr>socketId_u = js ''s1'', name_u = no_name\<rparr>]"
proof -
  have h: "SocketEmit (js ''s2'') (RoomUsers (js ''a'') [\<lparr>socketId_u = js ''s1'', name_u = no_name\<rparr>] (Finite 10))
       \<in> set (fst (join_room quiet (js ''s2'') (knock None) once))"
    by (simp add: once_eq sample_defs join_room_def members_for_def wrong_password_def admit_def
          hall_def values_of_def public_def getChannel_def)
  have f: "js ''s2'' \<notin> set (map socketId (present once (js ''a'')))"
    by (simp add: once_eq present_def lobby_def values_of_def guest_def js_def)
  show ?thesis
    using filed_once h f present_once admission_result [OF filed_once h] by blast
qed

section \<open>Reachable states\<close>

text \<open>In every reachable state every member is filed under its own socket id.\<close>

lemma post_channels_state:
  "snd (snd (post_channels e b s)) = s\<lparr>registry := snd (createChannel e b (registry s))\<rparr>"
  by (cases "createChannel e b (registry s)")
     (simp add: post_channels_def Let_def split: sum.splits)

lemma filed_registry [simp]: "filed (s\<lparr>registry := r\<rparr>) = filed s"
  by (simp add: filed_def)

lemma registry_join_room [simp]: "registry (snd (join_room e sid p s)) = registry s"
  by (simp add: join_room_def Let_def split_beta admit_def members_for_frame split: option.splits)

lemma registry_disconnect [simp]: "registry (snd (disconnect sid s)) = registry s"
  by (simp add: disconnect_def Let_def split_beta)

lemma reachable_filed: "reachable s \<Longrightarrow> filed s"
proof (induction rule: reachable.induct)
  case (start c e d)
  show ?case by (simp add: filed_def)
next
  case (create s e b)
  then show ?case by (simp add: post_channels_state)
next
  case (join s e sid p)
  then show ?case by (simp add: filed_join_room)
next
  case (leave s sid)
  then show ?case by (simp add: filed_disconnect)
qed

lemma reachable_fresh: "reachable fresh"
  unfolding fresh_def by (rule reachable.start)

lemma reachable_twice: "reachable twice"
  unfolding twice_def by (intro reachable.join reachable_fresh)

section \<open>One channel at a time\<close>

lemma coop_fresh:
  "snd (join_room quiet (js ''s1'') (enter ''coop'') fresh)
   = fresh\<lparr>channelMembers := [(js ''coop'', [(js ''s1'', guest (js ''s1''))])],
           socketChannelMap := [(js ''s1'', js ''coop'')]\<rparr>"
  apply (simp add: join_room_def fresh_def getChannel_def boot_no_disk enter_def trim_def
      is_space_def or_empty_def js_def Let_def members_for_def wrong_password_def seed_def
      effectiveMaxUsers_def admit_def guest_def)
  apply (simp add: quiet_def js_def)
  done

lemma twice_eq:
  "twice = fresh\<lparr>channelMembers := [(js ''coop'', [(js ''s1'', guest (js ''s1''))]),
                                    (js ''squad'', [(js ''s1'', guest (js ''s1''))])],
                socketChannelMap := [(js ''s1'', js ''squad'')]\<rparr>"
  unfolding twice_def coop_fresh
  apply (simp add: join_room_def fresh_def getChannel_def boot_no_disk enter_def trim_def
      is_space_def or_empty_def js_def Let_def members_for_def wrong_password_def seed_def
      effectiveMaxUsers_def admit_def guest_def)
  apply (simp add: quiet_def js_def)
  done

text \<open>
  Claim C2 does not hold of the code. A join never takes the socket out of the channel
  it is in: in the state reached when \<open>s1\<close> has joined \<open>coop\<close> and then \<open>squad\<close>, it
  is a member of both and the reverse map records \<open>squad\<close> only; when it disconnects
  it is removed from \<open>squad\<close> and stays in \<open>coop\<close>.
\<close>

theorem join_second_channel:
  "reachable twice
   \<and> roster twice = [(js ''coop'', [js ''s1'']), (js ''squad'', [js ''s1''])]
   \<and> socketChannelMap twice = [(js ''s1'', js ''squad'')]
   \<and> roster (snd (disconnect (js ''s1'') twice)) = [(js ''coop'', [js ''s1''])]
   \<and> socketChannelMap (snd (disconnect (js ''s1'') twice)) = []"
  using reachable_twice
  by (simp add: twice_eq roster_def disconnect_def or_empty_def has_def Let_def js_def)

section \<open>The scenario of the specification\<close>

text \<open>
  Creating \<open>General\<close> with capacity two gives the id \<open>general\<close>. The first socket to
  join gets an empty peer list, the second gets the first as its peer and the broadcast
  counts two, the third gets \<open>ROOM_FULL\<close>; when the first disconnects the broadcast
  counts one and the capacity is still two.
\<close>

lemma scenario_create:
  "fst (createChannel quiet (ask ''General'' (Some (Finite 2))) \<lparr>channels = [], disk = no_disk\<rparr>) = Inr duo"
proof -
  have n: "js ''General'' \<noteq> []"
    by (simp add: js_def)
  have f: "free_id [] r 0 (js ''general'') = js ''general''" for r
    by (subst free_id_keys) simp
  have "new_channel quiet (ask ''General'' (Some (Finite 2))) (js ''General'') [] = duo"
    apply (simp add: new_channel_def split_beta slug_general f Let_def ask_def nonempty_def duo_def)
    apply (simp add: quiet_def)
    done
  then show ?thesis
    by (simp add: createChannel_named ask_general n save_quiet)
qed

lemmas join_defs = join_room_def members_for_def wrong_password_def admit_def getChannel_def
  effectiveMaxUsers_def broadcastChannelsState_def buildChannelsState_def getChannels_def
  values_of_def public_def trim_def is_space_def or_empty_def Let_def

lemma scenario_a:
  "join_room quiet (js ''A'') (named ''general'' ''a'') (lobby duo [])
   = ([SocketJoin (js ''A'') (js ''general''),
       SocketEmit (js ''A'') (RoomUsers (js ''general'') [] (Finite 2)),
       SocketTo (js ''A'') (js ''general'') (UserJoined (js ''A'') (js ''a'')),
       IoEmit (ChannelsState
         [\<lparr>id_v = js ''general'', name_v = js ''General'', maxUsers_v = Finite 2,
           hasPassword_v = False, onlineCount = 1,
           onlineUsers = [\<lparr>socketId_u = js ''A'', name_u = js ''a''\<rparr>]\<rparr>])],
      (lobby duo [(js ''general'', [(js ''A'', person ''A'' ''a'')])])
        \<lparr>socketChannelMap := [(js ''A'', js ''general'')]\<rparr>)"
  by (simp add: join_defs lobby_def duo_def named_def person_def js_def quiet_def)


lemma scenario_b:
  "join_room quiet (js ''B'') (named ''general'' ''b'')
     ((lobby duo [(js ''general'', [(js ''A'', person ''A'' ''a'')])])
        \<lparr>socketChannelMap := [(js ''A'', js ''general'')]\<rparr>)
   = ([SocketJoin (js ''B'') (js ''general''),
       SocketEmit (js ''B'') (RoomUsers (js ''general'')
         [\<lparr>socketId_u = js ''A'', name_u = js ''a''\<rparr>] (Finite 2)),
       SocketTo (js ''B'') (js ''general'') (UserJoined (js ''B'') (js ''b'')),
       IoEmit (ChannelsState
         [\<lparr>id_v = js ''general'', name_v = js ''General'', maxUsers_v = Finite 2,
           hasPassword_v = False, onlineCount = 2,
           onlineUsers = [\<lparr>socketId_u = js ''A'', name_u = js ''a''\<rparr>,
                          \<lparr>socketId_u = js ''B'', name_u = js ''b''\<rparr>]\<rparr>])],
      (lobby duo [(js ''general'', [(js ''A'', person ''A'' ''a''), (js ''B'', person ''B'' ''b'')])])
        \<lparr>socketChannelMap := [(js ''A'', js ''general''), (js ''B'', js ''general'')]\<rparr>)"
  by (simp add: join_defs lobby_def duo_def named_def person_def js_def quiet_def)

lemma scenario_c:
  "fst (join_room quiet (js ''C'') (named ''general'' ''c'')
     ((lobby duo [(js ''general'', [(js ''A'', person ''A'' ''a''), (js ''B'', person ''B'' ''b'')])])
        \<lparr>socketChannelMap := [(js ''A'', js ''general''), (js ''B'', js ''general'')]\<rparr>))
   = [SocketEmit (js ''C'') (JoinError ROOM_FULL)]"
  by (simp add: join_defs lobby_def duo_def named_def person_def js_def quiet_def)

lemma scenario_leave:
  "fst (disconnect (js ''A'')
     ((lobby duo [(js ''general'', [(js ''A'', person ''A'' ''a''), (js ''B'', person ''B'' ''b'')])])
        \<lparr>socketChannelMap := [(js ''A'', js ''general''), (js ''B'', js ''general'')]\<rparr>))
   = [SocketTo (js ''A'') (js ''general'') (UserLeft (js ''A'')),
      IoEmit (ChannelsState
         [\<lparr>id_v = js ''general'', name_v = js ''General'', maxUsers_v = Finite 2,
           hasPassword_v = False, onlineCount = 1,
           onlineUsers = [\<lparr>socketId_u = js ''B'', name_u = js ''b''\<rparr>]\<rparr>])]"
  by (simp add: disconnect_def has_def join_defs lobby_def duo_def named_def person_def js_def)

end
